theory Spec2Isabelle
  imports Main "HOL-Library.AList"
begin

section \<open>JavaScript values\<close>

text \<open>
  A JavaScript string is a sequence of UTF-16 code units. It is modelled as the list of
  its code units, each a natural number, so that the non-ASCII units the loader filters
  out are part of the model. \<open>str\<close> turns an ASCII literal of the source into that list.
\<close>

type_synonym jstring = "nat list"

definition str :: "string \<Rightarrow> jstring" where
  "str s = map of_char s"

text \<open>
  The values \<open>JSON.parse\<close> can return, and \<open>undefined\<close> for a property that is
  absent. The finite numbers are restricted to the integers: of a number only its
  truthiness, its type and the first character of its text are ever inspected.
  \<open>JInfinity\<close> and \<open>JNegInfinity\<close> are what a literal beyond the range of a double,
  such as \<open>1e999\<close>, parses to. An object is the list of its own properties, each name
  once.
\<close>

datatype jsval =
    JUndefined
  | JNull
  | JBool bool
  | JNum int
  | JInfinity
  | JNegInfinity
  | JStr jstring
  | JArr "jsval list"
  | JObj "(jstring \<times> jsval) list"

text \<open>Truthiness, as tested by \<open>if (v)\<close>, \<open>!v\<close>, \<open>v && ...\<close> and \<open>v || ...\<close>.\<close>

fun truthy :: "jsval \<Rightarrow> bool" where
  "truthy JUndefined = False"
| "truthy JNull = False"
| "truthy (JBool b) = b"
| "truthy (JNum n) = (n \<noteq> 0)"
| "truthy JInfinity = True"
| "truthy JNegInfinity = True"
| "truthy (JStr s) = (s \<noteq> [])"
| "truthy (JArr xs) = True"
| "truthy (JObj ps) = True"

text \<open>\<open>typeof v === 'string'\<close> and \<open>Array.isArray(v)\<close>.\<close>

fun is_string :: "jsval \<Rightarrow> bool" where
  "is_string (JStr s) = True"
| "is_string v = False"

fun isArray :: "jsval \<Rightarrow> bool" where
  "isArray (JArr xs) = True"
| "isArray v = False"

text \<open>
  Property access \<open>v.key\<close> on a value other than \<open>null\<close> and \<open>undefined\<close>. None of
  the property names the loader reads is defined on a prototype, so a primitive or an
  array yields \<open>undefined\<close>.
\<close>

fun property :: "jsval \<Rightarrow> jstring \<Rightarrow> jsval" where
  "property (JObj ps) k = (case map_of ps k of None \<Rightarrow> JUndefined | Some v \<Rightarrow> v)"
| "property v k = JUndefined"

section \<open>Character classes and string primitives\<close>

definition is_ascii :: "nat \<Rightarrow> bool" where
  "is_ascii c = (c \<le> 127)"  \<comment> \<open>\<open>[\x00-\x7F]\<close>\<close>

definition is_upper :: "nat \<Rightarrow> bool" where
  "is_upper c = (65 \<le> c \<and> c \<le> 90)"  \<comment> \<open>\<open>[A-Z]\<close>\<close>

definition is_lower :: "nat \<Rightarrow> bool" where
  "is_lower c = (97 \<le> c \<and> c \<le> 122)"  \<comment> \<open>\<open>[a-z]\<close>\<close>

definition is_letter :: "nat \<Rightarrow> bool" where
  "is_letter c = (is_upper c \<or> is_lower c)"  \<comment> \<open>\<open>[a-zA-Z]\<close>\<close>

definition is_digit :: "nat \<Rightarrow> bool" where
  "is_digit c = (48 \<le> c \<and> c \<le> 57)"  \<comment> \<open>\<open>[0-9]\<close>\<close>

definition hyphen :: nat where
  "hyphen = 45"

text \<open>
  The class \<open>\s\<close> of a regular expression, which is also what \<open>trim()\<close> strips:
  the white space and line terminator code units of ECMAScript.
\<close>

definition is_space :: "nat \<Rightarrow> bool" where
  "is_space c = (c \<in> {9, 10, 11, 12, 13, 32, 160, 5760, 8232, 8233, 8239, 8287, 12288, 65279}
     \<or> (8192 \<le> c \<and> c \<le> 8202))"

definition trim :: "jstring \<Rightarrow> jstring" where
  "trim s = rev (dropWhile is_space (rev (dropWhile is_space s)))"

text \<open>\<open>toLowerCase()\<close>, on the ASCII strings it is applied to.\<close>

definition lower_unit :: "nat \<Rightarrow> nat" where
  "lower_unit c = (if is_upper c then c + 32 else c)"

definition toLowerCase_ascii :: "jstring \<Rightarrow> jstring" where
  "toLowerCase_ascii s = map lower_unit s"

definition startsWith :: "jstring \<Rightarrow> jstring \<Rightarrow> bool" where
  "startsWith s p = (take (length p) s = p)"

text \<open>\<open>s.replace(/C+/g, r)\<close> for a character class \<open>C\<close>: every maximal run becomes \<open>r\<close>.\<close>

function replace_runs :: "(nat \<Rightarrow> bool) \<Rightarrow> jstring \<Rightarrow> jstring \<Rightarrow> jstring" where
  "replace_runs C r [] = []"
| "replace_runs C r (c # cs) =
     (if C c then r @ replace_runs C r (dropWhile C cs) else c # replace_runs C r cs)"
  by pat_completeness auto
termination
  by (relation "measure (\<lambda>(C, r, s). length s)") (auto simp: length_dropWhile_le less_Suc_eq_le)

section \<open>Name sanitization\<close>

text \<open>
  \<open>CustomCommandLoader.sanitizeCommandName\<close>, one definition per regular expression:
  \<^verbatim>\<open>
  const ascii = name.replace(/[^\x00-\x7F]/g, '');
  if (ascii.trim().length === 0) return '';
  return ascii.toLowerCase()
    .replace(/[^a-zA-Z0-9\s-]/g, '').replace(/\s+/g, '-')
    .replace(/^[^a-zA-Z]+/, '').replace(/-+/g, '-')
    .replace(/^-+|-+$/g, '').substring(0, 50);
  \<close>
\<close>

definition remove_non_ascii :: "jstring \<Rightarrow> jstring" where
  "remove_non_ascii s = filter is_ascii s"

definition remove_special :: "jstring \<Rightarrow> jstring" where
  "remove_special s = filter (\<lambda>c. is_letter c \<or> is_digit c \<or> is_space c \<or> c = hyphen) s"

definition spaces_to_hyphens :: "jstring \<Rightarrow> jstring" where
  "spaces_to_hyphens s = replace_runs is_space [hyphen] s"

definition ensure_starts_with_letter :: "jstring \<Rightarrow> jstring" where
  "ensure_starts_with_letter s = dropWhile (\<lambda>c. \<not> is_letter c) s"

definition collapse_hyphens :: "jstring \<Rightarrow> jstring" where
  "collapse_hyphens s = replace_runs (\<lambda>c. c = hyphen) [hyphen] s"

definition strip_hyphens :: "jstring \<Rightarrow> jstring" where
  "strip_hyphens s =
     rev (dropWhile (\<lambda>c. c = hyphen) (rev (dropWhile (\<lambda>c. c = hyphen) s)))"

definition sanitizeCommandName :: "jstring \<Rightarrow> jstring" where
  "sanitizeCommandName name =
     (let ascii = remove_non_ascii name in
      if length (trim ascii) = 0 then []
      else take 50 (strip_hyphens (collapse_hyphens (ensure_starts_with_letter
             (spaces_to_hyphens (remove_special (toLowerCase_ascii ascii)))))))"

text \<open>
  The algorithm as the specification words it, step by step: drop all non-ASCII code
  points; if nothing remains, no name; otherwise lower-case, strip characters outside
  \<open>[a-z0-9 -]\<close>, collapse whitespace runs to single hyphens, strip any non-letter
  prefix, collapse repeated hyphens, trim leading and trailing hyphens, truncate to 50.
  \<open>keep\<close> is the class of characters the stripping step retains.
\<close>

definition spec_class :: "nat \<Rightarrow> bool" where
  "spec_class c = (is_lower c \<or> is_digit c \<or> c = 32 \<or> c = hyphen)"  \<comment> \<open>\<open>[a-z0-9 -]\<close>\<close>

fun squeeze_hyphens :: "jstring \<Rightarrow> jstring" where
  "squeeze_hyphens (a # b # cs) =
     (if a = hyphen \<and> b = hyphen then squeeze_hyphens (b # cs) else a # squeeze_hyphens (b # cs))"
| "squeeze_hyphens cs = cs"

definition spec_sanitize_with :: "(nat \<Rightarrow> bool) \<Rightarrow> jstring \<Rightarrow> jstring" where
  "spec_sanitize_with keep name =
     (let remaining = filter is_ascii name in
      if remaining = [] then []
      else
        let lowered = map lower_unit remaining;
            stripped = filter keep lowered;
            hyphenated = replace_runs is_space [hyphen] stripped;
            lettered = dropWhile (\<lambda>c. \<not> is_lower c) hyphenated;
            squeezed = squeeze_hyphens lettered;
            trimmed = rev (dropWhile (\<lambda>c. c = hyphen) (rev (dropWhile (\<lambda>c. c = hyphen) squeezed)))
        in take 50 trimmed)"

definition spec_sanitize :: "jstring \<Rightarrow> jstring" where
  "spec_sanitize = spec_sanitize_with spec_class"

text \<open>The same algorithm with all of \<open>\s\<close> retained by the stripping step.\<close>

definition spec_class_ws :: "nat \<Rightarrow> bool" where
  "spec_class_ws c = (is_lower c \<or> is_digit c \<or> is_space c \<or> c = hyphen)"

definition spec_sanitize_ws :: "jstring \<Rightarrow> jstring" where
  "spec_sanitize_ws = spec_sanitize_with spec_class_ws"

section \<open>Commands\<close>

text \<open>
  \<open>SlashCommand\<close> and the types around it (\<open>ui/commands/types.ts\<close>). The fields
  \<open>name\<close>, \<open>altName\<close> and \<open>description\<close> hold whatever value the source file gave
  them; \<open>metadata\<close> is the list of own properties of the metadata object, absent for a
  command without one. \<open>completion\<close> and \<open>subCommands\<close> are never read or written by
  the loading code and are left out.
\<close>

datatype CommandScope = builtin | project | personal

datatype CommandSourceFormat = typescript | json | yaml | markdown

fun scope_name :: "CommandScope \<Rightarrow> jstring" where
  "scope_name builtin = str ''builtin''"
| "scope_name project = str ''project''"
| "scope_name personal = str ''personal''"

fun format_name :: "CommandSourceFormat \<Rightarrow> jstring" where
  "format_name typescript = str ''typescript''"
| "format_name json = str ''json''"
| "format_name yaml = str ''yaml''"
| "format_name markdown = str ''markdown''"

datatype MessageType = info | error

datatype SlashCommandActionReturn =
    ToolActionReturn (toolName: jstring) (tool_command: jstring) (tool_cwd: jstring)
  | MessageActionReturn MessageType jstring
  | OpenDialogActionReturn jstring
  | AiPromptActionReturn jstring

text \<open>
  What an action reads of its context: \<open>context.services.config?.getProjectRoot()\<close>,
  and \<open>process.cwd()\<close> at the time of the call.
\<close>

record Config =
  getProjectRoot :: jstring
  getDebugMode :: bool

record CommandContext =
  services_config :: "Config option"
  process_cwd :: jstring

record SlashCommand =
  name :: jsval
  altName :: jsval
  description :: jsval
  action :: "(CommandContext \<Rightarrow> jstring \<Rightarrow> SlashCommandActionReturn) option"
  metadata :: "(jstring \<times> jsval) list option"

section \<open>String replacement\<close>

text \<open>
  \<open>String.prototype.replace\<close> expands the replacement text (GetSubstitution of
  ECMAScript): \<open>$$\<close> is a dollar sign, \<open>$&\<close> the matched text, \<open>$`\<close> the text before
  the match and \<open>$'\<close> the text after it. The patterns used here capture nothing, so
  \<open>$1\<close> and the like stay as they are.
\<close>

fun GetSubstitution :: "jstring \<Rightarrow> jstring \<Rightarrow> jstring \<Rightarrow> jstring \<Rightarrow> jstring" where
  "GetSubstitution matched before after (d # e # rest) =
     (if d = 36 \<and> e = 36 then 36 # GetSubstitution matched before after rest
      else if d = 36 \<and> e = 38 then matched @ GetSubstitution matched before after rest
      else if d = 36 \<and> e = 96 then before @ GetSubstitution matched before after rest
      else if d = 36 \<and> e = 39 then after @ GetSubstitution matched before after rest
      else d # GetSubstitution matched before after (e # rest))"
| "GetSubstitution matched before after rest = rest"

text \<open>\<open>s.indexOf(p)\<close>, and \<open>s.replace(p, r)\<close> for a string \<open>p\<close>: the first occurrence only.\<close>

fun indexOf :: "jstring \<Rightarrow> jstring \<Rightarrow> nat option" where
  "indexOf [] p = (if p = [] then Some 0 else None)"
| "indexOf (c # cs) p =
     (if startsWith (c # cs) p then Some 0 else map_option Suc (indexOf cs p))"

definition replace_first :: "jstring \<Rightarrow> jstring \<Rightarrow> jstring \<Rightarrow> jstring" where
  "replace_first s p r =
     (case indexOf s p of
        None \<Rightarrow> s
      | Some i \<Rightarrow>
          (let before = take i s; after = drop (i + length p) s
           in before @ GetSubstitution p before after r @ after))"

text \<open>
  \<open>s.replace(/p/g, r)\<close> for a literal, non-empty \<open>p\<close>: every occurrence, left to right;
  \<open>seen\<close> is the part of \<open>s\<close> already passed.
\<close>

function replace_all_from :: "jstring \<Rightarrow> jstring \<Rightarrow> jstring \<Rightarrow> jstring \<Rightarrow> jstring" where
  "replace_all_from p r seen rest =
     (if rest = [] \<or> p = [] then rest
      else if startsWith rest p
        then GetSubstitution p seen (drop (length p) rest) r
               @ replace_all_from p r (seen @ p) (drop (length p) rest)
      else hd rest # replace_all_from p r (seen @ [hd rest]) (tl rest))"
  by pat_completeness auto
termination
  by (relation "measure (\<lambda>(p, r, seen, rest). length rest)") auto

definition replace_all :: "jstring \<Rightarrow> jstring \<Rightarrow> jstring \<Rightarrow> jstring" where
  "replace_all s p r = replace_all_from p r [] s"

section \<open>Structured-data commands\<close>

text \<open>The naming rule \<open>/^[a-zA-Z][a-zA-Z0-9-]*$/\<close>.\<close>

definition valid_name :: "jstring \<Rightarrow> bool" where
  "valid_name s =
     (case s of
        [] \<Rightarrow> False
      | c # cs \<Rightarrow> is_letter c \<and> list_all (\<lambda>x. is_letter x \<or> is_digit x \<or> x = hyphen) cs)"

text \<open>The string a value stands for where the source uses it as one.\<close>

fun string_of :: "jsval \<Rightarrow> jstring" where
  "string_of (JStr s) = s"
| "string_of v = []"

datatype js_error = TypeError jstring | SyntaxError jstring | SystemError jstring

text \<open>The text \<open>${error}\<close> of a caught error.\<close>

fun error_text :: "js_error \<Rightarrow> jstring" where
  "error_text (TypeError m) = str ''TypeError: '' @ m"
| "error_text (SyntaxError m) = str ''SyntaxError: '' @ m"
| "error_text (SystemError m) = str ''Error: '' @ m"

text \<open>
  Conversion of a value to a string, as \<open>RegExp.prototype.test\<close> and a template
  literal do it, throws a \<open>TypeError\<close> on an object that has a property \<open>toString\<close> of
  its own: a parsed value is never a function, so the object has no callable
  \<open>toString\<close>, and \<open>valueOf\<close> does not give a primitive. An array converts its
  elements, \<open>null\<close> and \<open>undefined\<close> apart, and throws when one of them does.
\<close>

fun ToString_throws :: "jsval \<Rightarrow> bool" where
  "ToString_throws (JObj ps) = (map_of ps (str ''toString'') \<noteq> None)"
| "ToString_throws (JArr xs) = list_ex ToString_throws xs"
| "ToString_throws v = False"

text \<open>
  The naming rule applied to the text of a value that need not be a string, when the
  conversion does not throw: \<open>true\<close>, \<open>false\<close>, \<open>null\<close>, \<open>undefined\<close> and
  \<open>Infinity\<close> print as words; any other number starts with a digit or a sign; an array
  prints its elements separated by commas, \<open>null\<close> and \<open>undefined\<close> elements as
  nothing; an object prints as \<open>[object Object]\<close>.
\<close>

fun text_is_name :: "jsval \<Rightarrow> bool" where
  "text_is_name (JStr s) = valid_name s"
| "text_is_name JUndefined = True"
| "text_is_name JNull = True"
| "text_is_name (JBool b) = True"
| "text_is_name (JNum n) = False"
| "text_is_name JInfinity = True"
| "text_is_name JNegInfinity = False"
| "text_is_name (JArr [x]) = (x \<noteq> JNull \<and> x \<noteq> JUndefined \<and> text_is_name x)"
| "text_is_name (JArr xs) = False"
| "text_is_name (JObj ps) = False"

text \<open>\<open>/^[a-zA-Z][a-zA-Z0-9-]*$/.test(v)\<close>.\<close>

definition test_name_rule :: "jsval \<Rightarrow> js_error + bool" where
  "test_name_rule v =
     (if ToString_throws v then Inl (TypeError (str ''Cannot convert object to primitive value''))
      else Inr (text_is_name v))"

text \<open>
  \<open>validateSimpleCommand\<close>, on the value \<open>JSON.parse\<close> returned. Reading a property of
  \<open>null\<close> throws; every other value answers \<open>undefined\<close> for a property it lacks. Each
  check appends to the list of defects on its own. The name is tested against the rule
  only when it is a string; the alias is tested whenever it is truthy, and that test
  can throw, which ends the validation without a list.
\<close>

definition check_name :: "jsval \<Rightarrow> string list" where
  \<open>check_name config =
     (if \<not> truthy (property config (str ''name'')) \<or> \<not> is_string (property config (str ''name''))
        then [''Missing required "name" property'']
      else if \<not> valid_name (string_of (property config (str ''name'')))
        then [''Command name must start with a letter and contain only letters, numbers, and hyphens'']
      else [])\<close>

definition check_altName :: "jsval \<Rightarrow> js_error + string list" where
  \<open>check_altName config =
     (if truthy (property config (str ''altName'')) then
        (case test_name_rule (property config (str ''altName'')) of
           Inl e \<Rightarrow> Inl e
         | Inr matches \<Rightarrow>
             Inr (if \<not> matches
                  then [''Command altName must start with a letter and contain only letters, numbers, and hyphens'']
                  else []))
      else Inr [])\<close>

definition check_string :: "jsval \<Rightarrow> string \<Rightarrow> string list" where
  \<open>check_string config field =
     (if truthy (property config (str field)) \<and> \<not> is_string (property config (str field))
        then [''Command "'' @ field @ ''" must be a string'']
      else [])\<close>

definition check_tags :: "jsval \<Rightarrow> string list" where
  \<open>check_tags config =
     (let tags = property config (str ''tags'') in
      if truthy tags \<and> \<not> isArray tags then [''Command "tags" must be an array'']
      else if truthy tags then
        (case tags of
           JArr ts \<Rightarrow> if list_all is_string ts then [] else [''All tags must be strings'']
         | _ \<Rightarrow> [])
      else [])\<close>

definition validateSimpleCommand :: "jsval \<Rightarrow> js_error + string list" where
  "validateSimpleCommand config =
     (if config = JNull \<or> config = JUndefined
        then Inl (TypeError (str ''Cannot read properties of null (reading 'name')''))
      else
        (case check_altName config of
           Inl e \<Rightarrow> Inl e
         | Inr altName_errors \<Rightarrow>
             Inr (check_name config @ altName_errors
                  @ check_string config ''command'' @ check_string config ''args''
                  @ check_string config ''cwd'' @ check_string config ''category''
                  @ check_tags config
                  @ check_string config ''author'' @ check_string config ''version'')))"

text \<open>
  The action \<open>createSimpleCommand\<close> generates. \<open>args.replace\<close> throws when \<open>args\<close> is
  not a string, and the action's own handler turns that into an error message.
\<close>

definition simple_action ::
  "jsval \<Rightarrow> jsval \<Rightarrow> jsval \<Rightarrow> CommandContext \<Rightarrow> jstring \<Rightarrow> SlashCommandActionReturn" where
  "simple_action shellCommand args cwd context userArgs =
     (case args of
        JStr a \<Rightarrow>
          (let finalArgs = replace_first a (str ''{{args}}'') userArgs;
               fullCommand = trim (string_of shellCommand @ str '' '' @ finalArgs)
           in ToolActionReturn (str ''run_shell_command'') fullCommand
                (if truthy cwd then string_of cwd
                 else case services_config context of
                   None \<Rightarrow> process_cwd context
                 | Some c \<Rightarrow> if getProjectRoot c \<noteq> [] then getProjectRoot c else process_cwd context))
      | JNull \<Rightarrow>
          MessageActionReturn error (str ''Failed to execute command: ''
            @ error_text (TypeError (str ''Cannot read properties of null (reading 'replace')'')))
      | _ \<Rightarrow>
          MessageActionReturn error (str ''Failed to execute command: ''
            @ error_text (TypeError (str ''args.replace is not a function''))))"

text \<open>
  \<open>createSimpleCommand\<close>. On a candidate with defects it logs
  \<open>`... "${config.name || 'unknown'}"`\<close> before it returns \<open>null\<close>, and the
  conversion of a truthy name to a string can throw.
\<close>

definition createSimpleCommand :: "jsval \<Rightarrow> js_error + SlashCommand option" where
  "createSimpleCommand config =
     (case validateSimpleCommand config of
        Inl e \<Rightarrow> Inl e
      | Inr errors \<Rightarrow>
          if length errors > 0 then
            (if truthy (property config (str ''name''))
                  \<and> ToString_throws (property config (str ''name''))
               then Inl (TypeError (str ''Cannot convert object to primitive value''))
             else Inr None)
          else
            (let shellCommand = property config (str ''command'');
                 args = (case property config (str ''args'') of JUndefined \<Rightarrow> JStr [] | v \<Rightarrow> v);
                 cwd = property config (str ''cwd'')
             in Inr (Some \<lparr>
                  name = property config (str ''name''),
                  altName = property config (str ''altName''),
                  description = property config (str ''description''),
                  action = (if truthy shellCommand then Some (simple_action shellCommand args cwd)
                            else None),
                  metadata = Some
                    [(str ''scope'', JStr (scope_name project)),
                     (str ''sourceFormat'', JStr (format_name json)),
                     (str ''category'', property config (str ''category'')),
                     (str ''tags'', property config (str ''tags'')),
                     (str ''author'', property config (str ''author'')),
                     (str ''version'', property config (str ''version'')),
                     (str ''canExecuteShell'', JBool (truthy shellCommand))]\<rparr>)))"

section \<open>Prose commands\<close>

text \<open>\<open>content.split('\n')\<close>.\<close>

fun split_lines :: "jstring \<Rightarrow> jstring list" where
  "split_lines [] = [[]]"
| "split_lines (c # cs) =
     (if c = 10 then [] # split_lines cs
      else case split_lines cs of
             l # ls \<Rightarrow> (c # l) # ls
           | [] \<Rightarrow> [[c]])"

text \<open>The first loop of \<open>loadMarkdownCommand\<close>: the title is the text of the first \<open># \<close> heading.\<close>

fun find_title :: "jstring list \<Rightarrow> jstring" where
  "find_title [] = []"
| "find_title (line # rest) =
     (let trimmed = trim line in
      if startsWith trimmed (str ''# '') then trim (drop 2 trimmed)
      else find_title rest)"

text \<open>
  The second loop, with its local variables as arguments; it returns \<open>shellCommand\<close> and
  \<open>description\<close> (here \<open>desc\<close>). \<open>continue\<close> goes to the next line with nothing else done, \<open>break\<close>
  returns at once.
\<close>

fun scan_lines :: "jstring list \<Rightarrow> bool \<Rightarrow> jstring \<Rightarrow> jstring \<Rightarrow> jstring \<times> jstring" where
  "scan_lines [] inCodeBlock codeBlockContent desc = ([], desc)"
| "scan_lines (line # rest) inCodeBlock codeBlockContent desc =
     (let trimmed = trim line in
      if startsWith trimmed (str ''```bash'') \<or> startsWith trimmed (str ''```sh'')
           \<or> startsWith trimmed (str ''```shell'')
        then scan_lines rest True codeBlockContent desc
      else if trimmed = str ''```'' \<and> inCodeBlock then
        (if trim codeBlockContent \<noteq> [] then (trim codeBlockContent, desc)
         else scan_lines rest False [] desc)
      else
        (let codeBlockContent' = (if inCodeBlock then codeBlockContent @ line @ [10]
                                  else codeBlockContent);
             desc' =
               (if desc = [] \<and> startsWith trimmed (str ''## '') then trim (drop 3 trimmed)
                else if desc = [] \<and> length trimmed > 0 \<and> \<not> startsWith trimmed (str ''#'')
                        \<and> \<not> startsWith trimmed (str ''```'') then trimmed
                else desc)
         in scan_lines rest inCodeBlock codeBlockContent' desc'))"

text \<open>The two actions a prose command can get.\<close>

definition markdown_shell_action ::
  "jstring \<Rightarrow> CommandContext \<Rightarrow> jstring \<Rightarrow> SlashCommandActionReturn" where
  "markdown_shell_action shellCommand context args =
     ToolActionReturn (str ''run_shell_command'') (replace_all shellCommand (str ''{{args}}'') args)
       (case services_config context of
          None \<Rightarrow> process_cwd context
        | Some c \<Rightarrow> if getProjectRoot c \<noteq> [] then getProjectRoot c else process_cwd context)"

definition markdown_prompt_action ::
  "jstring \<Rightarrow> CommandContext \<Rightarrow> jstring \<Rightarrow> SlashCommandActionReturn" where
  "markdown_prompt_action content context args =
     AiPromptActionReturn
       (if args \<noteq> [] \<and> trim args \<noteq> [] then trim content @ [10, 10] @ trim args
        else trim content)"

text \<open>
  The part of \<open>loadMarkdownCommand\<close> after the file is read: \<open>content\<close> is the text of
  the file, \<open>filename\<close> its base name without the extension.
\<close>

definition markdown_description :: "jstring \<Rightarrow> jstring" where
  "markdown_description content = snd (scan_lines (split_lines content) False [] [])"

definition parseMarkdownCommand :: "jstring \<Rightarrow> jstring \<Rightarrow> SlashCommand option" where
  "parseMarkdownCommand content filename =
     (let lines = split_lines content;
          title = find_title lines;
          (shellCommand, desc) = scan_lines lines False [] [];
          commandName = (if sanitizeCommandName title \<noteq> [] then sanitizeCommandName title
                         else sanitizeCommandName filename)
      in if commandName = [] then None
         else Some \<lparr>
           name = JStr commandName,
           altName = JUndefined,
           description = JStr (if desc \<noteq> [] then desc
                               else if title \<noteq> [] then title
                               else str ''Command from '' @ filename),
           action = Some (if shellCommand \<noteq> [] then markdown_shell_action shellCommand
                          else markdown_prompt_action content),
           metadata = Some
             ([(str ''scope'', JStr (scope_name personal)),
               (str ''sourceFormat'', JStr (format_name markdown)),
               (str ''category'', JStr (str ''markdown'')),
               (str ''tags'', JArr [JStr (str ''markdown''), JStr (str ''custom'')])]
              @ (if shellCommand \<noteq> [] then [(str ''canExecuteShell'', JBool True)] else []))\<rparr>)"

section \<open>The loader\<close>

text \<open>
  What the loader asks of the file system and of the run time. A call that can throw
  returns a sum, the error on the left. \<open>extname_lower p\<close> is
  \<open>path.extname(p).toLowerCase()\<close>, \<open>basename_noext p\<close> is
  \<open>path.basename(p, path.extname(p))\<close>. \<open>import_command\<close> is the whole of
  \<open>loadTypeScriptCommand\<close>: the module is executable code, and every exception of the
  import and of the validation of its export is caught there and answered by \<open>null\<close>.
\<close>

record Dirent =
  isFile :: bool
  entry_name :: jstring

record host =
  directoryExists :: "jstring \<Rightarrow> bool"
  readdir :: "jstring \<Rightarrow> js_error + Dirent list"
  readFile :: "jstring \<Rightarrow> js_error + jstring"
  JSON_parse :: "jstring \<Rightarrow> js_error + jsval"
  import_command :: "jstring \<Rightarrow> SlashCommand option"
  path_join :: "jstring \<Rightarrow> jstring \<Rightarrow> jstring"
  extname_lower :: "jstring \<Rightarrow> jstring"
  basename_noext :: "jstring \<Rightarrow> jstring"
  homedir :: jstring

record CommandDirectoryConfig =
  path :: jstring
  scope :: CommandScope
  enabled :: bool

definition getSourceFormat :: "jstring \<Rightarrow> CommandSourceFormat option" where
  "getSourceFormat ext =
     (if ext = str ''.ts'' \<or> ext = str ''.js'' then Some typescript
      else if ext = str ''.json'' then Some json
      else if ext = str ''.yaml'' \<or> ext = str ''.yml'' then Some yaml
      else if ext = str ''.md'' \<or> ext = str ''.markdown'' then Some markdown
      else None)"

text \<open>
  The format loaders. Each is one \<open>try\<close> block whose handler logs and returns \<open>null\<close>:
  an error on the left of a sum ends in \<open>None\<close>.
\<close>

definition loadJsonCommand :: "host \<Rightarrow> jstring \<Rightarrow> SlashCommand option" where
  "loadJsonCommand h filePath =
     (case readFile h filePath of
        Inl e \<Rightarrow> None
      | Inr content \<Rightarrow>
          (case JSON_parse h content of
             Inl e \<Rightarrow> None
           | Inr config \<Rightarrow>
               (case createSimpleCommand config of
                  Inl e \<Rightarrow> None
                | Inr command \<Rightarrow> command)))"

definition loadYamlCommand :: "host \<Rightarrow> jstring \<Rightarrow> SlashCommand option" where
  "loadYamlCommand h filePath = None"

definition loadMarkdownCommand :: "host \<Rightarrow> jstring \<Rightarrow> SlashCommand option" where
  "loadMarkdownCommand h filePath =
     (case readFile h filePath of
        Inl e \<Rightarrow> None
      | Inr content \<Rightarrow> parseMarkdownCommand content (basename_noext h filePath))"

definition loadTypeScriptCommand :: "host \<Rightarrow> jstring \<Rightarrow> SlashCommand option" where
  "loadTypeScriptCommand h filePath = import_command h filePath"

text \<open>
  Object spread \<open>{ ...base, ...over }\<close>: the properties of \<open>over\<close> are written over those
  of \<open>base\<close>.
\<close>

definition spread :: "(jstring \<times> jsval) list \<Rightarrow> (jstring \<times> jsval) list \<Rightarrow> (jstring \<times> jsval) list" where
  "spread base over = foldl (\<lambda>obj (k, v). AList.update k v obj) base over"

text \<open>
  \<open>loadCommandFromFile\<close>:
  \<^verbatim>\<open>
  command.metadata = { scope, sourceFormat, sourcePath: filePath, ...command.metadata };
  \<close>
\<close>

definition stamp_metadata ::
  "CommandScope \<Rightarrow> CommandSourceFormat \<Rightarrow> jstring \<Rightarrow> SlashCommand \<Rightarrow> SlashCommand" where
  "stamp_metadata sc sourceFormat filePath command =
     command\<lparr>metadata := Some (spread
        [(str ''scope'', JStr (scope_name sc)),
         (str ''sourceFormat'', JStr (format_name sourceFormat)),
         (str ''sourcePath'', JStr filePath)]
        (case metadata command of None \<Rightarrow> [] | Some m \<Rightarrow> m))\<rparr>"

definition loadCommandFromFile :: "host \<Rightarrow> jstring \<Rightarrow> CommandScope \<Rightarrow> SlashCommand option" where
  "loadCommandFromFile h filePath sc =
     (case getSourceFormat (extname_lower h filePath) of
        None \<Rightarrow> None
      | Some sourceFormat \<Rightarrow>
          (let command =
                 (case sourceFormat of
                    typescript \<Rightarrow> loadTypeScriptCommand h filePath
                  | json \<Rightarrow> loadJsonCommand h filePath
                  | yaml \<Rightarrow> loadYamlCommand h filePath
                  | markdown \<Rightarrow> loadMarkdownCommand h filePath)
           in map_option (stamp_metadata sc sourceFormat filePath) command))"

section \<open>The registry\<close>

text \<open>
  A \<open>Map\<close> keeps its keys in the order of their first insertion; \<open>set\<close> on a key that is
  present replaces the value where it stands. Keys are compared as \<open>Map\<close> compares
  them: a string, a number, a boolean, \<open>null\<close> or \<open>undefined\<close> by its value, an array
  or an object by its identity. The only arrays that become keys are the aliases
  \<open>JSON.parse\<close> made, each an object of its own, so \<open>set\<close> under an array or an object
  always adds an entry; the key is written \<open>Object n\<close>, with \<open>n\<close> the number of entries
  before it. Commands are looked up by values, \<open>getCommand\<close> by a string.
\<close>

datatype map_key = Value jsval | Object nat

fun primitive :: "jsval \<Rightarrow> bool" where
  "primitive (JArr xs) = False"
| "primitive (JObj ps) = False"
| "primitive v = True"

type_synonym registry = "(map_key \<times> SlashCommand) list"

definition Map_set :: "jsval \<Rightarrow> SlashCommand \<Rightarrow> registry \<Rightarrow> registry" where
  "Map_set k v m =
     (if primitive k then AList.update (Value k) v m else m @ [(Object (length m), v)])"

definition Map_get :: "registry \<Rightarrow> jsval \<Rightarrow> SlashCommand option" where
  "Map_get m k = map_of m (Value k)"

text \<open>
  The insertion both \<open>loadCommandsFromDirectory\<close> and \<open>CommandService.loadCommands\<close> do:
  \<^verbatim>\<open>
  map.set(command.name, command);
  if (command.altName) { map.set(command.altName, command); }
  \<close>
\<close>

definition register :: "registry \<Rightarrow> SlashCommand \<Rightarrow> registry" where
  "register m command =
     (let m' = Map_set (name command) command m
      in if truthy (altName command) then Map_set (altName command) command m' else m')"

text \<open>
  The loop of \<open>loadCommandsFromDirectory\<close> over the directory entries, on the live map
  and the list of commands loaded so far.
\<close>

fun load_entries ::
  "host \<Rightarrow> jstring \<Rightarrow> CommandScope \<Rightarrow> Dirent list \<Rightarrow> registry \<times> SlashCommand list
     \<Rightarrow> registry \<times> SlashCommand list" where
  "load_entries h dirPath sc [] (m, loaded) = (m, loaded)"
| "load_entries h dirPath sc (entry # entries) (m, loaded) =
     (if \<not> isFile entry then load_entries h dirPath sc entries (m, loaded)
      else case loadCommandFromFile h (path_join h dirPath (entry_name entry)) sc of
             None \<Rightarrow> load_entries h dirPath sc entries (m, loaded)
           | Some command \<Rightarrow>
               load_entries h dirPath sc entries (register m command, loaded @ [command]))"

definition loadCommandsFromDirectory ::
  "host \<Rightarrow> CommandDirectoryConfig \<Rightarrow> registry \<Rightarrow> registry \<times> SlashCommand list" where
  "loadCommandsFromDirectory h dirConfig m =
     (if \<not> directoryExists h (path dirConfig) then (m, [])
      else case readdir h (path dirConfig) of
             Inl e \<Rightarrow> (m, [])
           | Inr entries \<Rightarrow> load_entries h (path dirConfig) (scope dirConfig) entries (m, []))"

text \<open>The loader object: the live map, the scope directories, the debounce timer handle.\<close>

record CustomCommandLoader =
  commands :: registry
  directories :: "CommandDirectoryConfig list"
  reloadTimer :: "nat option"

definition project_config :: "host \<Rightarrow> jstring \<Rightarrow> CommandDirectoryConfig" where
  "project_config h projectRoot =
     \<lparr>path = path_join h projectRoot (str ''.gemini/commands''), scope = project, enabled = True\<rparr>"

definition personal_config :: "host \<Rightarrow> CommandDirectoryConfig" where
  "personal_config h =
     \<lparr>path = path_join h (homedir h) (str ''.gemini/commands''), scope = personal, enabled = True\<rparr>"

definition setupDirectories :: "host \<Rightarrow> jstring \<Rightarrow> CommandDirectoryConfig list" where
  "setupDirectories h projectRoot = [project_config h projectRoot, personal_config h]"

definition new_CustomCommandLoader :: "host \<Rightarrow> jstring \<Rightarrow> CustomCommandLoader" where
  "new_CustomCommandLoader h projectRoot =
     \<lparr>commands = [], directories = setupDirectories h projectRoot, reloadTimer = None\<rparr>"

fun load_directories ::
  "host \<Rightarrow> CommandDirectoryConfig list \<Rightarrow> registry \<times> SlashCommand list
     \<Rightarrow> registry \<times> SlashCommand list" where
  "load_directories h [] (m, loadedCommands) = (m, loadedCommands)"
| "load_directories h (dirConfig # rest) (m, loadedCommands) =
     (if \<not> enabled dirConfig then load_directories h rest (m, loadedCommands)
      else case loadCommandsFromDirectory h dirConfig m of
             (m', loaded) \<Rightarrow> load_directories h rest (m', loadedCommands @ loaded))"

text \<open>
  \<open>loadCustomCommands\<close>: \<open>this.commands.clear()\<close>, then every enabled directory in
  turn. It returns the loader with its map rebuilt, and the list of loaded commands.
\<close>

definition loadCustomCommands ::
  "host \<Rightarrow> CustomCommandLoader \<Rightarrow> CustomCommandLoader \<times> SlashCommand list" where
  "loadCustomCommands h loader =
     (case load_directories h (directories loader) ([], []) of
        (m, loadedCommands) \<Rightarrow> (loader\<lparr>commands := m\<rparr>, loadedCommands))"

definition getCommand :: "CustomCommandLoader \<Rightarrow> jstring \<Rightarrow> SlashCommand option" where
  "getCommand loader k = Map_get (commands loader) (JStr k)"

text \<open>
  \<open>CommandService.loadCommands\<close>: the map it builds from the built-in commands and the
  custom ones, and the service with the values of that map as its command list.
\<close>

definition commandMap :: "SlashCommand list \<Rightarrow> SlashCommand list \<Rightarrow> registry" where
  "commandMap builtInCommands customCommands =
     foldl register (foldl register [] builtInCommands) customCommands"

record CommandService =
  service_commands :: "SlashCommand list"
  customCommandLoader :: "CustomCommandLoader option"

definition loadCommands :: "host \<Rightarrow> SlashCommand list \<Rightarrow> CommandService \<Rightarrow> CommandService" where
  "loadCommands h builtInCommands service =
     (case customCommandLoader service of
        None \<Rightarrow> service\<lparr>service_commands := map snd (commandMap builtInCommands [])\<rparr>
      | Some loader \<Rightarrow>
          (case loadCustomCommands h loader of
             (loader', customCommands) \<Rightarrow>
               \<lparr>service_commands = map snd (commandMap builtInCommands customCommands),
                customCommandLoader = Some loader'\<rparr>))"

section \<open>The watcher\<close>

text \<open>
  Time is a natural number of milliseconds. The event loop holds the pending timeouts,
  each a handle with the time it is due; \<open>setTimeout\<close> issues a fresh handle and
  \<open>clearTimeout\<close> removes the timeout of a handle, if it is still pending. The only
  callback ever scheduled is the reload, so firing a timeout runs \<open>loadCustomCommands\<close>;
  \<open>reloads\<close> records the times at which that happened. A timeout fires when it is
  due.
\<close>

datatype WatchEventType = rename | change

record world =
  loader :: CustomCommandLoader
  timers :: "(nat \<times> nat) list"
  next_handle :: nat
  reloads :: "nat list"

definition clearTimeout :: "nat \<Rightarrow> (nat \<times> nat) list \<Rightarrow> (nat \<times> nat) list" where
  "clearTimeout handle ts = filter (\<lambda>(h, due). h \<noteq> handle) ts"

text \<open>
  \<open>scheduleReload\<close>:
  \<^verbatim>\<open>
  if (this.reloadTimer) { clearTimeout(this.reloadTimer); }
  this.reloadTimer = setTimeout(async () => { ... await this.loadCustomCommands(); ... }, 500);
  \<close>
\<close>

definition scheduleReload :: "nat \<Rightarrow> world \<Rightarrow> world" where
  "scheduleReload now w =
     (let ts = (case reloadTimer (loader w) of
                  Some handle \<Rightarrow> clearTimeout handle (timers w)
                | None \<Rightarrow> timers w);
          handle = next_handle w
      in w\<lparr>loader := (loader w)\<lparr>reloadTimer := Some handle\<rparr>,
           timers := ts @ [(handle, now + 500)],
           next_handle := Suc handle\<rparr>)"

text \<open>
  The callback \<open>startWatching\<close> gives to \<open>fs.watch\<close> for each directory; the file name
  of a notification may be missing.
  \<^verbatim>\<open>
  (eventType, filename) => { if (filename && eventType === 'change') { this.scheduleReload(); } }
  \<close>
\<close>

definition watch_callback :: "WatchEventType \<Rightarrow> jstring option \<Rightarrow> nat \<Rightarrow> world \<Rightarrow> world" where
  "watch_callback eventType filename now w =
     (if filename \<noteq> None \<and> filename \<noteq> Some [] \<and> eventType = change then scheduleReload now w
      else w)"

definition fire :: "host \<Rightarrow> world \<Rightarrow> nat \<times> nat \<Rightarrow> world" where
  "fire h w t =
     w\<lparr>loader := fst (loadCustomCommands h (loader w)), reloads := reloads w @ [snd t]\<rparr>"

text \<open>Let time pass until \<open>now\<close>: the timeouts due by then fire, the earliest first.\<close>

definition run_timers :: "host \<Rightarrow> nat \<Rightarrow> world \<Rightarrow> world" where
  "run_timers h now w =
     foldl (fire h) (w\<lparr>timers := filter (\<lambda>(handle, due). \<not> due \<le> now) (timers w)\<rparr>)
       (sort_key snd (filter (\<lambda>(handle, due). due \<le> now) (timers w)))"

text \<open>
  A run of the watcher: notifications arrive at the given times, in order, and time then
  passes until \<open>horizon\<close>.
\<close>

fun run_events :: "host \<Rightarrow> (nat \<times> WatchEventType \<times> jstring option) list \<Rightarrow> world \<Rightarrow> world" where
  "run_events h [] w = w"
| "run_events h ((t, eventType, filename) # rest) w =
     run_events h rest (watch_callback eventType filename t (run_timers h t w))"

definition run_watcher ::
  "host \<Rightarrow> (nat \<times> WatchEventType \<times> jstring option) list \<Rightarrow> nat \<Rightarrow> world \<Rightarrow> world" where
  "run_watcher h events horizon w = run_timers h horizon (run_events h events w)"

text \<open>Notifications in rapid succession: each less than the delay after the one before.\<close>

fun rapid :: "nat list \<Rightarrow> bool" where
  "rapid (t # u # rest) = (t \<le> u \<and> u < t + 500 \<and> rapid (u # rest))"
| "rapid ts = True"

section \<open>Notions the properties are stated with\<close>

text \<open>
  A record carries a key when \<open>register\<close> stores it under that key: its name, and its
  alias if it has one. \<open>latest k cs\<close> is the last record of \<open>cs\<close> that carries \<open>k\<close>.
\<close>

definition carries :: "SlashCommand \<Rightarrow> jsval \<Rightarrow> bool" where
  "carries c k = (k = name c \<or> (truthy (altName c) \<and> k = altName c))"

definition latest :: "jsval \<Rightarrow> SlashCommand list \<Rightarrow> SlashCommand option" where
  "latest k cs = List.find (\<lambda>c. carries c k) (rev cs)"

text \<open>The records one scope directory contributes to a load cycle.\<close>

definition directory_records :: "host \<Rightarrow> CommandDirectoryConfig \<Rightarrow> SlashCommand list" where
  "directory_records h dirConfig = snd (loadCommandsFromDirectory h dirConfig [])"

text \<open>
  The watcher holds at most its own timeout when nothing is pending, or when the one
  pending timeout is the one \<open>reloadTimer\<close> refers to.
\<close>

definition own_timer_only :: "world \<Rightarrow> bool" where
  "own_timer_only w =
     (case timers w of
        [] \<Rightarrow> True
      | [(handle, due)] \<Rightarrow> reloadTimer (loader w) = Some handle
      | _ \<Rightarrow> False)"

text \<open>
  A file of a recognised type fails to load when reading it fails, when its text does
  not parse, when the validation of the parsed value rejects it or throws, when the
  module loader gives no command (a failed import, no command exported, or an export
  the validation of modules rejects), when it is a YAML file, for which there is no parser,
  or when no name can be made for a prose file.
\<close>

definition file_fails :: "host \<Rightarrow> jstring \<Rightarrow> bool" where
  "file_fails h filePath =
     (case getSourceFormat (extname_lower h filePath) of
        None \<Rightarrow> False
      | Some typescript \<Rightarrow> import_command h filePath = None
      | Some json \<Rightarrow>
          (case readFile h filePath of
             Inl e \<Rightarrow> True
           | Inr content \<Rightarrow>
               (case JSON_parse h content of
                  Inl e \<Rightarrow> True
                | Inr config \<Rightarrow>
                    (case createSimpleCommand config of
                       Inl e \<Rightarrow> True
                     | Inr None \<Rightarrow> True
                     | Inr (Some command) \<Rightarrow> False)))
      | Some yaml \<Rightarrow> True
      | Some markdown \<Rightarrow>
          (case readFile h filePath of
             Inl e \<Rightarrow> True
           | Inr content \<Rightarrow> parseMarkdownCommand content (basename_noext h filePath) = None))"

text \<open>
  A replacement text has a dollar pattern when it contains one of \<open>$$\<close>, \<open>$&\<close>,
  \<open>$`\<close> and \<open>$'\<close>.
\<close>

fun has_dollar_pattern :: "jstring \<Rightarrow> bool" where
  "has_dollar_pattern (d # e # rest) =
     ((d = 36 \<and> (e = 36 \<or> e = 38 \<or> e = 96 \<or> e = 39)) \<or> has_dollar_pattern (e # rest))"
| "has_dollar_pattern rest = False"

text \<open>
  Putting a text in the place of the first occurrence of a placeholder, as it is, and
  the command line the specification describes for a structured-data command: the
  command, a space, and the arguments with the placeholder substituted.
\<close>

definition substitute :: "jstring \<Rightarrow> jstring \<Rightarrow> jstring \<Rightarrow> jstring" where
  "substitute s p r =
     (case indexOf s p of
        None \<Rightarrow> s
      | Some i \<Rightarrow> take i s @ r @ drop (i + length p) s)"

definition spec_composed :: "jstring \<Rightarrow> jstring \<Rightarrow> jstring \<Rightarrow> jstring" where
  "spec_composed command args userArgs =
     command @ str '' '' @ substitute args (str ''{{args}}'') userArgs"

text \<open>
  The description the specification describes for a prose file: the text of the first
  second-level heading or, absent such a heading, the first plain line that is neither a
  heading nor inside a fenced code block. \<open>outside_fences\<close> drops the fence lines and
  what they enclose.
\<close>

definition is_heading2 :: "jstring \<Rightarrow> bool" where
  "is_heading2 line = startsWith (trim line) (str ''## '')"

definition is_fence :: "jstring \<Rightarrow> bool" where
  "is_fence line = startsWith (trim line) (str ''```'')"

definition is_plain :: "jstring \<Rightarrow> bool" where
  "is_plain line = (trim line \<noteq> [] \<and> \<not> startsWith (trim line) (str ''#'') \<and> \<not> is_fence line)"

fun outside_fences :: "bool \<Rightarrow> jstring list \<Rightarrow> jstring list" where
  "outside_fences inside [] = []"
| "outside_fences inside (line # rest) =
     (if is_fence line then outside_fences (\<not> inside) rest
      else if inside then outside_fences inside rest
      else line # outside_fences inside rest)"

definition spec_description :: "jstring \<Rightarrow> jstring" where
  "spec_description content =
     (case List.find is_heading2 (split_lines content) of
        Some line \<Rightarrow> trim (drop 3 (trim line))
      | None \<Rightarrow>
          (case List.find is_plain (outside_fences False (split_lines content)) of
             Some line \<Rightarrow> trim line
           | None \<Rightarrow> []))"

text \<open>
  What the scan of a prose file does take a description from: a second-level heading
  or a plain line, whichever comes first.
\<close>

definition describes :: "jstring \<Rightarrow> bool" where
  "describes line = (is_heading2 line \<or> is_plain line)"

definition description_text :: "jstring \<Rightarrow> jstring" where
  "description_text line = (if is_heading2 line then trim (drop 3 (trim line)) else trim line)"

text \<open>
  The lines the scan of a prose file reads: all of them, or those up to the closing
  fence of the first shell block that is not empty, where the loop stops. The arguments
  are the loop's \<open>inCodeBlock\<close> and \<open>codeBlockContent\<close>.
\<close>

fun scanned :: "jstring list \<Rightarrow> bool \<Rightarrow> jstring \<Rightarrow> jstring list" where
  "scanned [] inCodeBlock codeBlockContent = []"
| "scanned (line # rest) inCodeBlock codeBlockContent =
     (let trimmed = trim line in
      if startsWith trimmed (str ''```bash'') \<or> startsWith trimmed (str ''```sh'')
           \<or> startsWith trimmed (str ''```shell'')
        then line # scanned rest True codeBlockContent
      else if trimmed = str ''```'' \<and> inCodeBlock then
        (if trim codeBlockContent \<noteq> [] then [line]
         else line # scanned rest False [])
      else line # scanned rest inCodeBlock
             (if inCodeBlock then codeBlockContent @ line @ [10] else codeBlockContent))"

text \<open>
  The first line of a list that is a second-level heading or a plain line, with whether
  it stands inside a fenced code block; every fence line opens or closes a block.
\<close>

fun first_describing :: "bool \<Rightarrow> jstring list \<Rightarrow> (bool \<times> jstring) option" where
  "first_describing inside [] = None"
| "first_describing inside (line # rest) =
     (if is_fence line then first_describing (\<not> inside) rest
      else if describes line then Some (inside, line)
      else first_describing inside rest)"

text \<open>Notifications of the watcher that report a change of a named file, at given times.\<close>

definition changes_at :: "jstring \<Rightarrow> nat list \<Rightarrow> (nat \<times> WatchEventType \<times> jstring option) list" where
  "changes_at filename ts = map (\<lambda>t. (t, change, Some filename)) ts"

section \<open>An example installation\<close>

text \<open>
  A project with two command files, one of them not valid JSON, and a sub-directory; a
  personal directory with one command file of the same name as the project's. The
  project's \<open>deploy\<close> has the alias \<open>d\<close>, the personal one has none.
\<close>

definition endsWith :: "jstring \<Rightarrow> jstring \<Rightarrow> bool" where
  "endsWith s p = startsWith (rev s) (rev p)"

definition project_dir :: jstring where
  "project_dir = str ''/w/.gemini/commands''"

definition personal_dir :: jstring where
  "personal_dir = str ''/u/.gemini/commands''"

definition project_deploy_text :: jstring where
  \<open>project_deploy_text = str ''{"name":"deploy","altName":"d","command":"make deploy"}''\<close>

definition personal_deploy_text :: jstring where
  \<open>personal_deploy_text = str ''{"name":"deploy","description":"my deploy"}''\<close>

definition broken_text :: jstring where
  \<open>broken_text = str ''{"name":"build",''\<close>

definition example_host :: host where
  "example_host = \<lparr>
     directoryExists = (\<lambda>p. p = project_dir \<or> p = personal_dir),
     readdir = (\<lambda>p.
       if p = project_dir then
         Inr [\<lparr>isFile = True, entry_name = str ''deploy.json''\<rparr>,
              \<lparr>isFile = True, entry_name = str ''build.json''\<rparr>,
              \<lparr>isFile = False, entry_name = str ''drafts''\<rparr>]
       else if p = personal_dir then Inr [\<lparr>isFile = True, entry_name = str ''deploy.json''\<rparr>]
       else Inl (SystemError (str ''ENOENT''))),
     readFile = (\<lambda>p.
       if p = project_dir @ str ''/deploy.json'' then Inr project_deploy_text
       else if p = project_dir @ str ''/build.json'' then Inr broken_text
       else if p = personal_dir @ str ''/deploy.json'' then Inr personal_deploy_text
       else Inl (SystemError (str ''ENOENT''))),
     JSON_parse = (\<lambda>text.
       if text = project_deploy_text then
         Inr (JObj [(str ''name'', JStr (str ''deploy'')), (str ''altName'', JStr (str ''d'')),
                    (str ''command'', JStr (str ''make deploy''))])
       else if text = personal_deploy_text then
         Inr (JObj [(str ''name'', JStr (str ''deploy'')),
                    (str ''description'', JStr (str ''my deploy''))])
       else Inl (SyntaxError (str ''Unexpected end of JSON input''))),
     import_command = (\<lambda>p. None),
     path_join = (\<lambda>a b. a @ str ''/'' @ b),
     extname_lower = (\<lambda>p. if endsWith p (str ''.json'') then str ''.json'' else []),
     basename_noext = (\<lambda>p. rev (takeWhile (\<lambda>c. c \<noteq> 47) (drop 5 (rev p)))),
     homedir = str ''/u''\<rparr>"

definition example_loader :: CustomCommandLoader where
  "example_loader = new_CustomCommandLoader example_host (str ''/w'')"

text \<open>The records the two \<open>deploy.json\<close> files load as.\<close>

definition project_deploy :: SlashCommand where
  "project_deploy = \<lparr>
     name = JStr (str ''deploy''), altName = JStr (str ''d''), description = JUndefined,
     action = Some (simple_action (JStr (str ''make deploy'')) (JStr []) JUndefined),
     metadata = Some
       [(str ''scope'', JStr (str ''project'')), (str ''sourceFormat'', JStr (str ''json'')),
        (str ''sourcePath'', JStr (str ''/w/.gemini/commands/deploy.json'')),
        (str ''category'', JUndefined), (str ''tags'', JUndefined), (str ''author'', JUndefined),
        (str ''version'', JUndefined), (str ''canExecuteShell'', JBool True)]\<rparr>"

definition personal_deploy :: SlashCommand where
  "personal_deploy = \<lparr>
     name = JStr (str ''deploy''), altName = JUndefined, description = JStr (str ''my deploy''),
     action = None,
     metadata = Some
       [(str ''scope'', JStr (str ''project'')), (str ''sourceFormat'', JStr (str ''json'')),
        (str ''sourcePath'', JStr (str ''/u/.gemini/commands/deploy.json'')),
        (str ''category'', JUndefined), (str ''tags'', JUndefined), (str ''author'', JUndefined),
        (str ''version'', JUndefined), (str ''canExecuteShell'', JBool False)]\<rparr>"

text \<open>
  Two structured-data commands: \<open>echo\<close> passes the user's arguments to a shell
  command; \<open>untyped\<close> gives a number as description and \<open>false\<close> as working
  directory; \<open>mistyped\<close> has a name against the rule, a number as category, zero as
  arguments and \<open>true\<close> as working directory.
\<close>

definition echo_config :: jsval where
  "echo_config = JObj [(str ''name'', JStr (str ''echo'')), (str ''command'', JStr (str ''echo hi'')),
                       (str ''args'', JStr (str ''{{args}}''))]"

definition untyped_config :: jsval where
  "untyped_config = JObj [(str ''name'', JStr (str ''untyped'')), (str ''description'', JNum 42),
                          (str ''cwd'', JBool False)]"

definition mistyped_config :: jsval where
  "mistyped_config = JObj [(str ''name'', JStr (str ''9lives'')), (str ''category'', JNum 5),
                           (str ''args'', JNum 0), (str ''cwd'', JBool True)]"

text \<open>A candidate whose alias is an object with a property \<open>toString\<close>.\<close>

definition unprintable_alias_config :: jsval where
  "unprintable_alias_config =
     JObj [(str ''name'', JStr (str ''deploy'')),
           (str ''altName'', JObj [(str ''toString'', JNum 1)])]"

definition plain_context :: CommandContext where
  "plain_context = \<lparr>services_config = Some \<lparr>getProjectRoot = str ''/w'', getDebugMode = False\<rparr>,
                     process_cwd = str ''/tmp''\<rparr>"

text \<open>
  A prose command file of three lines: a title, a paragraph, a second-level heading.
\<close>

definition deploy_notes :: jstring where
  "deploy_notes = str ''# Deploy'' @ [10] @ str ''Ship it.'' @ [10] @ str ''## Usage''"

text \<open>A prose command file with a paragraph before a shell block.\<close>

definition reset_notes :: jstring where
  "reset_notes = str ''# Reset'' @ [10] @ str ''Reset it.'' @ [10] @ str ''```bash'' @ [10]
                   @ str ''npm run reset'' @ [10] @ str ''```''"

text \<open>The watcher of the example, before any notification.\<close>

definition fresh_world :: world where
  "fresh_world = \<lparr>loader = example_loader, timers = [], next_handle = 0, reloads = []\<rparr>"

text \<open>
  A loader whose live map still holds \<open>build\<close>, loaded in an earlier cycle, when
  \<open>build.json\<close> was a valid file.
\<close>

definition earlier_build :: SlashCommand where
  "earlier_build = \<lparr>
     name = JStr (str ''build''), altName = JUndefined, description = JUndefined,
     action = None, metadata = None\<rparr>"

definition earlier_loader :: CustomCommandLoader where
  "earlier_loader = example_loader\<lparr>commands := [(Value (JStr (str ''build'')), earlier_build)]\<rparr>"

definition builtin_deploy :: SlashCommand where
  "builtin_deploy = \<lparr>
     name = JStr (str ''deploy''), altName = JStr (str ''d''), description = JStr (str ''built in''),
     action = None, metadata = None\<rparr>"

section \<open>Properties of name sanitization\<close>

lemma dropWhile_all_iff: "(\<forall>x\<in>set (dropWhile P xs). P x) \<longleftrightarrow> (\<forall>x\<in>set xs. P x)"
  by (induction xs) auto

lemma trim_empty_iff: "trim s = [] \<longleftrightarrow> (\<forall>c\<in>set s. is_space c)"
  by (simp add: trim_def dropWhile_all_iff)

lemma lower_unit_not_upper: "\<not> is_upper (lower_unit c)"
  by (simp add: lower_unit_def is_upper_def)

lemma lower_unit_space: "is_space c \<Longrightarrow> lower_unit c = c"
  by (auto simp: lower_unit_def is_upper_def is_space_def)

lemma set_replace_runs: "set (replace_runs C r xs) \<subseteq> set xs \<union> set r"
proof (induction C r xs rule: replace_runs.induct)
  case (1 C r)
  then show ?case by simp
next
  case (2 C r c cs)
  have "set (dropWhile C cs) \<subseteq> set cs" by (auto dest: set_dropWhileD)
  with 2 show ?case by (auto split: if_splits)
qed

lemma replace_runs_all:
  assumes "xs \<noteq> []" and "\<forall>c\<in>set xs. C c"
  shows "replace_runs C r xs = r"
proof (cases xs)
  case Nil
  with assms show ?thesis by simp
next
  case (Cons c cs)
  with assms have "dropWhile C cs = []" by simp
  with Cons assms show ?thesis by (simp del: dropWhile_eq_Nil_conv)
qed

lemma squeeze_hyphens_dropWhile:
  "squeeze_hyphens (hyphen # cs) = hyphen # squeeze_hyphens (dropWhile (\<lambda>c. c = hyphen) cs)"
proof (induction cs)
  case Nil
  then show ?case by simp
next
  case (Cons a cs)
  then show ?case by (cases cs) auto
qed

lemma replace_runs_squeeze: "replace_runs (\<lambda>c. c = hyphen) [hyphen] xs = squeeze_hyphens xs"
proof (induction "\<lambda>c. c = hyphen" "[hyphen]" xs rule: replace_runs.induct)
  case 1
  then show ?case by simp
next
  case (2 c cs)
  show ?case
  proof (cases "c = hyphen")
    case True
    with 2 show ?thesis by (simp add: squeeze_hyphens_dropWhile)
  next
    case False
    with 2 show ?thesis by (cases cs) auto
  qed
qed

lemmas char_class_defs =
  is_ascii_def is_upper_def is_lower_def is_letter_def is_digit_def hyphen_def is_space_def
  lower_unit_def

lemmas sanitize_defs =
  sanitizeCommandName_def remove_non_ascii_def trim_def toLowerCase_ascii_def
  remove_special_def spaces_to_hyphens_def ensure_starts_with_letter_def
  collapse_hyphens_def strip_hyphens_def char_class_defs

lemmas spec_sanitize_defs =
  spec_sanitize_def spec_sanitize_ws_def spec_sanitize_with_def spec_class_def
  spec_class_ws_def char_class_defs

text \<open>
  C6, as stated, fails. On the name \<open>a<TAB>b\<close> the source keeps the tab, which is in
  \<open>\s\<close>, and turns it into a hyphen; the algorithm of the specification strips it,
  since a tab is outside \<open>[a-z0-9 -]\<close>.
\<close>

theorem sanitize_tab_counterexample:
  "sanitizeCommandName (str ''a'' @ [9] @ str ''b'') = str ''a-b''
   \<and> spec_sanitize (str ''a'' @ [9] @ str ''b'') = str ''ab''
   \<and> sanitizeCommandName (str ''a'' @ [9] @ str ''b'') \<noteq> spec_sanitize (str ''a'' @ [9] @ str ''b'')"
  by (simp add: sanitize_defs spec_sanitize_defs str_def)

text \<open>
  C6, amended: for every input string, \<open>sanitizeCommandName\<close> computes exactly the
  algorithm of the specification with the stripping step keeping the lower-case letters,
  the digits, the hyphen and every whitespace character (not the space alone): drop
  the non-ASCII code units; if nothing remains, the empty name; otherwise lower-case,
  strip, turn whitespace runs into single hyphens, strip the non-letter prefix, collapse
  repeated hyphens, trim hyphens at both ends, truncate to 50.
\<close>

theorem sanitizeCommandName_refines_spec: "sanitizeCommandName s = spec_sanitize_ws s"
proof -
  define a where "a = filter is_ascii s"
  define l where "l = map lower_unit a"
  have no_upper_l: "\<forall>c\<in>set l. \<not> is_upper c"
    by (auto simp: l_def lower_unit_not_upper)
  have strip_eq: "remove_special l = filter spec_class_ws l"
    unfolding remove_special_def
    by (rule filter_cong) (use no_upper_l in \<open>auto simp: spec_class_ws_def is_letter_def\<close>)
  define h where "h = replace_runs is_space [hyphen] (filter spec_class_ws l)"
  have "set h \<subseteq> set l \<union> {hyphen}"
    unfolding h_def using set_replace_runs [of is_space "[hyphen]" "filter spec_class_ws l"] by auto
  then have no_upper_h: "\<forall>c\<in>set h. \<not> is_upper c"
    using no_upper_l by (auto simp: is_upper_def hyphen_def)
  have drop_eq: "dropWhile (\<lambda>c. \<not> is_letter c) h = dropWhile (\<lambda>c. \<not> is_lower c) h"
    by (rule dropWhile_cong) (use no_upper_h in \<open>auto simp: is_letter_def\<close>)
  show ?thesis
  proof (cases "a = []")
    case True
    then show ?thesis
      by (simp add: sanitizeCommandName_def spec_sanitize_ws_def spec_sanitize_with_def
          remove_non_ascii_def a_def trim_def)
  next
    case nonempty: False
    show ?thesis
    proof (cases "\<forall>c\<in>set a. is_space c")
      case True
      then have l_a: "l = a" by (simp add: l_def lower_unit_space map_idI)
      have "filter spec_class_ws a = a"
        using True by (auto simp: spec_class_ws_def)
      then have "h = [hyphen]"
        using True nonempty by (simp add: h_def l_a replace_runs_all)
      then have "dropWhile (\<lambda>c. \<not> is_lower c) h = []"
        by (simp add: is_lower_def hyphen_def)
      then have "spec_sanitize_ws s = []"
        unfolding spec_sanitize_ws_def spec_sanitize_with_def Let_def a_def [symmetric]
          l_def [symmetric] h_def [symmetric]
        by (simp only: squeeze_hyphens.simps dropWhile.simps rev.simps take.simps if_cancel)
      moreover have "sanitizeCommandName s = []"
        using True
        by (simp add: sanitizeCommandName_def remove_non_ascii_def a_def [symmetric] trim_empty_iff)
      ultimately show ?thesis by simp
    next
      case False
      then have "trim a \<noteq> []" by (simp add: trim_empty_iff)
      then show ?thesis
        using nonempty strip_eq drop_eq
        by (simp add: sanitizeCommandName_def spec_sanitize_ws_def spec_sanitize_with_def
            remove_non_ascii_def a_def [symmetric] toLowerCase_ascii_def l_def [symmetric]
            spaces_to_hyphens_def h_def [symmetric] ensure_starts_with_letter_def
            collapse_hyphens_def strip_hyphens_def replace_runs_squeeze Let_def)
    qed
  qed
qed

section \<open>Properties of the registry\<close>

lemma Map_get_set:
  "primitive k' \<Longrightarrow> Map_get (Map_set k v m) k' = (if k' = k then Some v else Map_get m k')"
  by (auto simp: Map_get_def Map_set_def update_conv' map_add_def split: option.splits)

lemma Map_get_register:
  "primitive k \<Longrightarrow> Map_get (register m c) k = (if carries c k then Some c else Map_get m k)"
  by (auto simp: register_def Let_def Map_get_set carries_def)

text \<open>
  The keys of a map stay distinct: an object key is numbered below the size of the map,
  and a new one gets the size as its number.
\<close>

lemma keys_Map_set:
  assumes "distinct (map fst m)" and "\<forall>n. Object n \<in> fst ` set m \<longrightarrow> n < length m"
  shows "distinct (map fst (Map_set k v m))"
    and "\<forall>n. Object n \<in> fst ` set (Map_set k v m) \<longrightarrow> n < length (Map_set k v m)"
proof -
  show "distinct (map fst (Map_set k v m))"
    using assms by (auto simp: Map_set_def distinct_update)
  have "length m \<le> length (AList.update (Value k) v m)"
    by (induction m) auto
  then show "\<forall>n. Object n \<in> fst ` set (Map_set k v m) \<longrightarrow> n < length (Map_set k v m)"
    using assms(2) by (auto simp: Map_set_def dom_update less_Suc_eq)
qed

lemma keys_register:
  assumes "distinct (map fst m)" and "\<forall>n. Object n \<in> fst ` set m \<longrightarrow> n < length m"
  shows "distinct (map fst (register m c))"
    and "\<forall>n. Object n \<in> fst ` set (register m c) \<longrightarrow> n < length (register m c)"
  using keys_Map_set [OF keys_Map_set [OF assms]] keys_Map_set [OF assms]
  by (simp_all add: register_def Let_def)

lemma keys_foldl_register:
  assumes "distinct (map fst m)" and "\<forall>n. Object n \<in> fst ` set m \<longrightarrow> n < length m"
  shows "distinct (map fst (foldl register m cs))
     \<and> (\<forall>n. Object n \<in> fst ` set (foldl register m cs) \<longrightarrow> n < length (foldl register m cs))"
  using assms
proof (induction cs arbitrary: m)
  case Nil
  then show ?case by simp
next
  case (Cons c cs)
  from Cons.IH [OF keys_register [OF Cons.prems]] show ?case by simp
qed

lemma distinct_commandMap: "distinct (map fst (commandMap builtIn custom))"
proof -
  have "distinct (map fst (foldl register [] builtIn))
     \<and> (\<forall>n. Object n \<in> fst ` set (foldl register [] builtIn) \<longrightarrow> n < length (foldl register [] builtIn))"
    by (rule keys_foldl_register) simp_all
  then have "distinct (map fst (foldl register (foldl register [] builtIn) custom))
     \<and> (\<forall>n. Object n \<in> fst ` set (foldl register (foldl register [] builtIn) custom)
           \<longrightarrow> n < length (foldl register (foldl register [] builtIn) custom))"
    by (intro keys_foldl_register) simp_all
  then show ?thesis by (simp add: commandMap_def)
qed

text \<open>An array or an object supplied for a lookup is equal to no key.\<close>

lemma values_Map_set:
  "\<forall>k'. Value k' \<in> fst ` set m \<longrightarrow> primitive k' \<Longrightarrow>
     \<forall>k'. Value k' \<in> fst ` set (Map_set k v m) \<longrightarrow> primitive k'"
  by (auto simp: Map_set_def dom_update)

lemma values_register:
  assumes "\<forall>k'. Value k' \<in> fst ` set m \<longrightarrow> primitive k'"
  shows "\<forall>k'. Value k' \<in> fst ` set (register m c) \<longrightarrow> primitive k'"
proof (cases "truthy (altName c)")
  case True
  then have "register m c = Map_set (altName c) c (Map_set (name c) c m)"
    by (simp add: register_def Let_def)
  with values_Map_set [OF values_Map_set [OF assms]] show ?thesis by simp
next
  case False
  then have "register m c = Map_set (name c) c m"
    by (simp add: register_def Let_def)
  with values_Map_set [OF assms] show ?thesis by simp
qed

lemma values_foldl_register:
  assumes "\<forall>k'. Value k' \<in> fst ` set m \<longrightarrow> primitive k'"
  shows "\<forall>k'. Value k' \<in> fst ` set (foldl register m cs) \<longrightarrow> primitive k'"
  using assms
proof (induction cs arbitrary: m)
  case Nil
  then show ?case by simp
next
  case (Cons c cs)
  from Cons.IH [OF values_register [OF Cons.prems]] show ?case by simp
qed

lemma Map_get_object:
  assumes "\<not> primitive k"
  shows "Map_get (commandMap builtIn custom) k = None"
proof -
  have "\<forall>k'. Value k' \<in> fst ` set (foldl register [] builtIn) \<longrightarrow> primitive k'"
    by (rule values_foldl_register) simp
  then have "\<forall>k'. Value k' \<in> fst ` set (commandMap builtIn custom) \<longrightarrow> primitive k'"
    unfolding commandMap_def by (rule values_foldl_register)
  with assms have "Value k \<notin> fst ` set (commandMap builtIn custom)" by blast
  then show ?thesis by (simp add: Map_get_def map_of_eq_None_iff)
qed

lemma latest_snoc:
  "latest k (cs @ [c]) = (if carries c k then Some c else latest k cs)"
  by (simp add: latest_def)

lemma latest_None_iff: "latest k cs = None \<longleftrightarrow> (\<forall>c\<in>set cs. \<not> carries c k)"
  by (auto simp: latest_def find_None_iff)

lemma latest_append:
  "latest k (xs @ ys) = (case latest k ys of Some c \<Rightarrow> Some c | None \<Rightarrow> latest k xs)"
  by (induction ys rule: rev_induct) (auto simp: latest_snoc latest_def simp flip: append_assoc)

lemma Map_get_foldl_register:
  "primitive k \<Longrightarrow>
     Map_get (foldl register m cs) k = (case latest k cs of Some c \<Rightarrow> Some c | None \<Rightarrow> Map_get m k)"
  by (induction cs rule: rev_induct) (auto simp: latest_snoc Map_get_register latest_def)

lemma latest_Some_carries: "latest k cs = Some c \<Longrightarrow> c \<in> set cs \<and> carries c k"
  by (induction cs rule: rev_induct) (auto simp: latest_snoc latest_def split: if_splits)

lemma latest_split:
  assumes cs: "cs = xs @ c # ys" and c: "carries c k" and ys: "\<forall>y\<in>set ys. \<not> carries y k"
  shows "latest k cs = Some c"
proof -
  from ys have "latest k ys = None" by (simp add: latest_None_iff)
  moreover have "latest k (c # ys) = (case latest k ys of Some d \<Rightarrow> Some d | None \<Rightarrow> latest k [c])"
    using latest_append [of k "[c]" ys] by simp
  moreover have "latest k [c] = Some c" using c by (simp add: latest_def)
  ultimately have "latest k (c # ys) = Some c" by simp
  then show ?thesis unfolding cs by (simp add: latest_append)
qed

lemma Map_get_empty: "Map_get [] k = None"
  by (simp add: Map_get_def)

lemma Map_get_commandMap:
  "primitive k \<Longrightarrow>
     Map_get (commandMap builtIn custom) k =
       (case latest k custom of Some c \<Rightarrow> Some c | None \<Rightarrow> latest k builtIn)"
  by (simp add: commandMap_def Map_get_foldl_register Map_get_empty split: option.splits)

section \<open>Properties of the loader\<close>

lemma load_entries_eq:
  "load_entries h d sc es (m, acc) =
     (foldl register m (List.map_filter (\<lambda>e. if isFile e then loadCommandFromFile h (path_join h d (entry_name e)) sc else None) es),
      acc @ List.map_filter (\<lambda>e. if isFile e then loadCommandFromFile h (path_join h d (entry_name e)) sc else None) es)"
  by (induction es arbitrary: m acc) (auto simp: List.map_filter_simps split: option.splits)

lemma directory_records_eq:
  "directory_records h d =
     (if \<not> directoryExists h (path d) then []
      else case readdir h (path d) of
             Inl e \<Rightarrow> []
           | Inr entries \<Rightarrow>
               List.map_filter (\<lambda>e. if isFile e then loadCommandFromFile h (path_join h (path d) (entry_name e)) (scope d) else None) entries)"
  by (simp add: directory_records_def loadCommandsFromDirectory_def load_entries_eq split: sum.splits)

lemma loadCommandsFromDirectory_eq:
  "loadCommandsFromDirectory h d m = (foldl register m (directory_records h d), directory_records h d)"
  by (auto simp: loadCommandsFromDirectory_def directory_records_def load_entries_eq split: sum.splits)

lemma load_directories_eq:
  "load_directories h ds (m, acc) =
     (foldl register m (concat (map (directory_records h) (filter enabled ds))),
      acc @ concat (map (directory_records h) (filter enabled ds)))"
  by (induction ds arbitrary: m acc) (auto simp: loadCommandsFromDirectory_eq)

lemma loadCustomCommands_eq:
  "loadCustomCommands h ld =
     (ld\<lparr>commands := foldl register [] (concat (map (directory_records h) (filter enabled (directories ld))))\<rparr>,
      concat (map (directory_records h) (filter enabled (directories ld))))"
  by (simp add: loadCustomCommands_def load_directories_eq)

lemma loadCustomCommands_scopes:
  "directories ld = setupDirectories h root \<Longrightarrow>
     snd (loadCustomCommands h ld) =
       directory_records h (project_config h root) @ directory_records h (personal_config h)"
  by (simp add: loadCustomCommands_eq setupDirectories_def project_config_def personal_config_def)

lemma loadCommands_values:
  "customCommandLoader service = Some ld \<Longrightarrow>
     service_commands (loadCommands h builtIn service) =
       map snd (commandMap builtIn (snd (loadCustomCommands h ld)))"
  by (simp add: loadCommands_def split: prod.splits)

section \<open>The example installation, evaluated\<close>

lemma str_eq_iff: "str a = str b \<longleftrightarrow> a = b"
  by (simp add: str_def inj_map_eq_map inj_on_def)

lemma str_append: "str a @ str b = str (a @ b)"
  by (simp add: str_def)

lemma str_Nil_iff: "str a = [] \<longleftrightarrow> a = []"
  by (simp add: str_def)

lemmas str_simps = str_eq_iff str_append str_Nil_iff

lemmas validate_defs =
  validateSimpleCommand_def check_name_def check_altName_def test_name_rule_def
  check_string_def check_tags_def

lemma valid_name_deploy: "valid_name (str ''deploy'')" "valid_name (str ''d'')"
  by (simp_all add: valid_name_def str_def char_class_defs)

lemma example_paths:
  "path (project_config example_host (str ''/w'')) = str ''/w/.gemini/commands''"
  "scope (project_config example_host (str ''/w'')) = project"
  "path (personal_config example_host) = str ''/u/.gemini/commands''"
  "scope (personal_config example_host) = personal"
  "path_join example_host a b = a @ str ''/'' @ b"
  by (simp_all add: project_config_def personal_config_def example_host_def str_append)

lemma example_listing:
  "directoryExists example_host (str ''/w/.gemini/commands'')"
  "directoryExists example_host (str ''/u/.gemini/commands'')"
  "readdir example_host (str ''/w/.gemini/commands'') =
     Inr [\<lparr>isFile = True, entry_name = str ''deploy.json''\<rparr>,
          \<lparr>isFile = True, entry_name = str ''build.json''\<rparr>,
          \<lparr>isFile = False, entry_name = str ''drafts''\<rparr>]"
  "readdir example_host (str ''/u/.gemini/commands'') =
     Inr [\<lparr>isFile = True, entry_name = str ''deploy.json''\<rparr>]"
  by (simp_all add: example_host_def project_dir_def personal_dir_def str_eq_iff)

lemma example_formats:
  "getSourceFormat (extname_lower example_host (str ''/w/.gemini/commands/deploy.json'')) = Some json"
  "getSourceFormat (extname_lower example_host (str ''/w/.gemini/commands/build.json'')) = Some json"
  "getSourceFormat (extname_lower example_host (str ''/u/.gemini/commands/deploy.json'')) = Some json"
  by (simp_all add: example_host_def endsWith_def startsWith_def getSourceFormat_def str_def)

lemma example_files:
  "readFile example_host (str ''/w/.gemini/commands/deploy.json'') = Inr project_deploy_text"
  "readFile example_host (str ''/w/.gemini/commands/build.json'') = Inr broken_text"
  "readFile example_host (str ''/u/.gemini/commands/deploy.json'') = Inr personal_deploy_text"
  by (simp_all add: example_host_def project_dir_def personal_dir_def str_simps)

lemma example_parses:
  "JSON_parse example_host project_deploy_text =
     Inr (JObj [(str ''name'', JStr (str ''deploy'')), (str ''altName'', JStr (str ''d'')),
                (str ''command'', JStr (str ''make deploy''))])"
  "JSON_parse example_host personal_deploy_text =
     Inr (JObj [(str ''name'', JStr (str ''deploy'')),
                (str ''description'', JStr (str ''my deploy''))])"
  "JSON_parse example_host broken_text = Inl (SyntaxError (str ''Unexpected end of JSON input''))"
  by (simp_all add: example_host_def project_deploy_text_def personal_deploy_text_def
      broken_text_def str_eq_iff)

lemma example_creates:
  "createSimpleCommand (JObj [(str ''name'', JStr (str ''deploy'')), (str ''altName'', JStr (str ''d'')),
                (str ''command'', JStr (str ''make deploy''))]) =
     Inr (Some \<lparr>name = JStr (str ''deploy''), altName = JStr (str ''d''), description = JUndefined,
       action = Some (simple_action (JStr (str ''make deploy'')) (JStr []) JUndefined),
       metadata = Some
         [(str ''scope'', JStr (str ''project'')), (str ''sourceFormat'', JStr (str ''json'')),
          (str ''category'', JUndefined), (str ''tags'', JUndefined), (str ''author'', JUndefined),
          (str ''version'', JUndefined), (str ''canExecuteShell'', JBool True)]\<rparr>)"
  "createSimpleCommand (JObj [(str ''name'', JStr (str ''deploy'')),
                (str ''description'', JStr (str ''my deploy''))]) =
     Inr (Some \<lparr>name = JStr (str ''deploy''), altName = JUndefined,
       description = JStr (str ''my deploy''), action = None,
       metadata = Some
         [(str ''scope'', JStr (str ''project'')), (str ''sourceFormat'', JStr (str ''json'')),
          (str ''category'', JUndefined), (str ''tags'', JUndefined), (str ''author'', JUndefined),
          (str ''version'', JUndefined), (str ''canExecuteShell'', JBool False)]\<rparr>)"
  by (simp_all add: createSimpleCommand_def validate_defs valid_name_deploy str_simps)

lemma example_loads:
  "loadCommandFromFile example_host (str ''/w/.gemini/commands/deploy.json'') project = Some project_deploy"
  "loadCommandFromFile example_host (str ''/w/.gemini/commands/build.json'') project = None"
  "loadCommandFromFile example_host (str ''/u/.gemini/commands/deploy.json'') personal = Some personal_deploy"
  by (simp_all add: loadCommandFromFile_def loadJsonCommand_def example_formats example_files
      example_parses example_creates stamp_metadata_def spread_def project_deploy_def
      personal_deploy_def str_simps)

lemma example_records:
  "directory_records example_host (project_config example_host (str ''/w'')) = [project_deploy]"
  "directory_records example_host (personal_config example_host) = [personal_deploy]"
  by (simp_all add: directory_records_eq example_paths example_listing List.map_filter_simps
      str_append example_loads)


lemma example_directories:
  "directories example_loader = setupDirectories example_host (str ''/w'')"
  by (simp add: example_loader_def new_CustomCommandLoader_def)

lemma example_custom:
  "snd (loadCustomCommands example_host example_loader) = [project_deploy, personal_deploy]"
  by (simp add: loadCustomCommands_scopes [OF example_directories] example_records)

lemma example_carries:
  "carries builtin_deploy k \<longleftrightarrow> k = JStr (str ''deploy'') \<or> k = JStr (str ''d'')"
  "carries project_deploy k \<longleftrightarrow> k = JStr (str ''deploy'') \<or> k = JStr (str ''d'')"
  "carries personal_deploy k \<longleftrightarrow> k = JStr (str ''deploy'')"
  by (simp_all add: carries_def builtin_deploy_def project_deploy_def personal_deploy_def
      str_Nil_iff)

lemma example_differ: "personal_deploy \<noteq> project_deploy"
  by (simp add: personal_deploy_def project_deploy_def)

text \<open>
  C1: in a load cycle the custom commands are the project directory's records followed
  by the personal directory's, inserted after the built-in ones, and the final map
  sends every string key to the last record that carries it, as name or as alias: a personal
  record if one carries the key, else a project record if one does, else a built-in
  one. Insertion never fails on a collision.
\<close>

theorem scope_override_law:
  assumes "directories ld = setupDirectories h root"
  shows "snd (loadCustomCommands h ld) =
           directory_records h (project_config h root) @ directory_records h (personal_config h)
     \<and> Map_get (commandMap builtIn (snd (loadCustomCommands h ld))) (JStr key) =
          (case latest (JStr key) (directory_records h (personal_config h)) of
             Some c \<Rightarrow> Some c
           | None \<Rightarrow>
               (case latest (JStr key) (directory_records h (project_config h root)) of
                  Some c \<Rightarrow> Some c
                | None \<Rightarrow> latest (JStr key) builtIn))"
  by (simp add: loadCustomCommands_scopes [OF assms] Map_get_commandMap latest_append
      split: option.splits)

text \<open>
  In the example the personal \<open>deploy\<close> replaces the project's and the built-in one
  under the name, and the project's alias \<open>d\<close> replaces the built-in alias.
\<close>

theorem scope_override_law_witness:
  "directories example_loader = setupDirectories example_host (str ''/w'')
   \<and> Map_get (commandMap [builtin_deploy] (snd (loadCustomCommands example_host example_loader)))
        (JStr (str ''deploy'')) = Some personal_deploy
   \<and> Map_get (commandMap [builtin_deploy] (snd (loadCustomCommands example_host example_loader)))
        (JStr (str ''d'')) = Some project_deploy
   \<and> Map_get (commandMap [builtin_deploy] []) (JStr (str ''d'')) = Some builtin_deploy"
  using scope_override_law [OF example_directories, of "[builtin_deploy]" "str ''deploy''"]
    scope_override_law [OF example_directories, of "[builtin_deploy]" "str ''d''"]
  by (simp add: example_directories example_records latest_def example_carries str_eq_iff
      Map_get_commandMap)

text \<open>
  C4, as stated, fails. In the example the registry holds the project's \<open>deploy\<close> under
  its alias \<open>d\<close>, and that record has the name \<open>deploy\<close>; but the name resolves to the
  personal record, which replaced it there and has no alias.
\<close>

theorem stale_alias_counterexample:
  "Map_get (commandMap [] (snd (loadCustomCommands example_host example_loader))) (JStr (str ''d''))
     = Some project_deploy
   \<and> name project_deploy = JStr (str ''deploy'')
   \<and> altName project_deploy = JStr (str ''d'')
   \<and> Map_get (commandMap [] (snd (loadCustomCommands example_host example_loader))) (JStr (str ''deploy''))
     = Some personal_deploy
   \<and> personal_deploy \<noteq> project_deploy"
  by (simp add: example_custom Map_get_commandMap latest_def example_carries str_eq_iff
      example_differ) (simp add: project_deploy_def)

text \<open>
  C4, amended: every key of the registry resolves to exactly one record. A string, and
  any other value that is not an array or an object, resolves to the last record
  inserted among those that carry it as their name or their alias, and to nothing when
  no record carries it; an array or an object supplied for a lookup finds nothing, since
  such a key is equal to itself alone. So a record found under a key carries that key;
  and each key of a record resolves to that record unless a record inserted after it
  carries that same key, in which case the key, and that key alone, resolves to the
  last such record: the other key of the earlier record keeps resolving to it.
\<close>

theorem registry_invariant:
  "distinct (map fst (commandMap builtIn custom))
   \<and> (\<forall>k. primitive k \<longrightarrow>
         Map_get (commandMap builtIn custom) k = latest k (builtIn @ custom))
   \<and> (\<forall>k. \<not> primitive k \<longrightarrow> Map_get (commandMap builtIn custom) k = None)
   \<and> (\<forall>k c. Map_get (commandMap builtIn custom) k = Some c \<longrightarrow>
         c \<in> set (builtIn @ custom) \<and> carries c k)
   \<and> (\<forall>before c after k.
         builtIn @ custom = before @ c # after \<and> primitive k \<and> carries c k \<longrightarrow>
         Map_get (commandMap builtIn custom) k =
           (case latest k after of Some later \<Rightarrow> Some later | None \<Rightarrow> Some c))"
proof (intro conjI allI impI)
  have get: "Map_get (commandMap builtIn custom) k = latest k (builtIn @ custom)"
    if "primitive k" for k
    using that by (simp add: Map_get_commandMap latest_append)
  show "distinct (map fst (commandMap builtIn custom))"
    by (rule distinct_commandMap)
  show "Map_get (commandMap builtIn custom) k = latest k (builtIn @ custom)"
    if "primitive k" for k
    using that by (rule get)
  show "Map_get (commandMap builtIn custom) k = None" if "\<not> primitive k" for k
    using that by (rule Map_get_object)
  show "c \<in> set (builtIn @ custom)" and "carries c k"
    if found: "Map_get (commandMap builtIn custom) k = Some c" for k c
  proof -
    from found have "primitive k"
      using Map_get_object [of k builtIn custom] by auto
    with found have "latest k (builtIn @ custom) = Some c"
      by (simp add: get)
    then have "c \<in> set (builtIn @ custom) \<and> carries c k"
      by (rule latest_Some_carries)
    then show "c \<in> set (builtIn @ custom)" and "carries c k" by simp_all
  qed
  show "Map_get (commandMap builtIn custom) k =
          (case latest k after of Some later \<Rightarrow> Some later | None \<Rightarrow> Some c)"
    if h: "builtIn @ custom = before @ c # after \<and> primitive k \<and> carries c k"
    for before c after k
  proof -
    from h have "latest k [c] = Some c" by (simp add: latest_def)
    then have "latest k ([c] @ after) =
        (case latest k after of Some later \<Rightarrow> Some later | None \<Rightarrow> Some c)"
      by (simp only: latest_append)
    then have "latest k (before @ c # after) =
        (case latest k after of Some later \<Rightarrow> Some later | None \<Rightarrow> Some c)"
      using latest_append [of k before "c # after"] by (simp split: option.splits)
    with h show ?thesis by (simp add: get)
  qed
qed

text \<open>
  With the built-in \<open>deploy\<close> followed by the project's and then the personal one, the
  personal record, inserted after the project's, carries the name \<open>deploy\<close> and not the
  alias \<open>d\<close>: the name resolves to the personal record, the alias still to the
  project's.
\<close>

theorem registry_invariant_witness:
  "[builtin_deploy] @ [project_deploy, personal_deploy]
     = [builtin_deploy] @ project_deploy # [personal_deploy]
   \<and> primitive (JStr (str ''d'')) \<and> carries project_deploy (JStr (str ''d''))
   \<and> primitive (JStr (str ''deploy'')) \<and> carries project_deploy (JStr (str ''deploy''))
   \<and> distinct (map fst (commandMap [builtin_deploy] [project_deploy, personal_deploy]))
   \<and> Map_get (commandMap [builtin_deploy] [project_deploy, personal_deploy]) (JStr (str ''d''))
       = Some project_deploy
   \<and> Map_get (commandMap [builtin_deploy] [project_deploy, personal_deploy]) (JStr (str ''deploy''))
       = Some personal_deploy
   \<and> latest (JStr (str ''deploy'')) ([builtin_deploy] @ [project_deploy, personal_deploy])
       = Some personal_deploy"
proof -
  note inv = registry_invariant [of "[builtin_deploy]" "[project_deploy, personal_deploy]"]
  have position: "[builtin_deploy] @ [project_deploy, personal_deploy]
      = [builtin_deploy] @ project_deploy # [personal_deploy]
    \<and> primitive (JStr k) \<and> carries project_deploy (JStr k)"
    if "k = str ''d'' \<or> k = str ''deploy''" for k
    using that by (auto simp: example_carries)
  have later: "latest (JStr (str ''d'')) [personal_deploy] = None"
    "latest (JStr (str ''deploy'')) [personal_deploy] = Some personal_deploy"
    by (simp_all add: latest_def example_carries str_eq_iff)
  from inv have "distinct (map fst (commandMap [builtin_deploy] [project_deploy, personal_deploy]))"
    by (rule conjunct1)
  moreover from inv [THEN conjunct2, THEN conjunct1, rule_format, of "JStr (str ''deploy'')"]
  have "latest (JStr (str ''deploy'')) ([builtin_deploy] @ [project_deploy, personal_deploy])
      = Map_get (commandMap [builtin_deploy] [project_deploy, personal_deploy]) (JStr (str ''deploy''))"
    by simp
  moreover from inv [THEN conjunct2, THEN conjunct2, THEN conjunct2, THEN conjunct2, rule_format,
      OF position [of "str ''d''"]]
  have "Map_get (commandMap [builtin_deploy] [project_deploy, personal_deploy]) (JStr (str ''d''))
      = Some project_deploy"
    by (simp add: later)
  moreover from inv [THEN conjunct2, THEN conjunct2, THEN conjunct2, THEN conjunct2, rule_format,
      OF position [of "str ''deploy''"]]
  have "Map_get (commandMap [builtin_deploy] [project_deploy, personal_deploy]) (JStr (str ''deploy''))
      = Some personal_deploy"
    by (simp add: later)
  ultimately show ?thesis
    by (simp add: example_carries)
qed

section \<open>Failures stay within their file\<close>

lemma loadCommandFromFile_readdir:
  "loadCommandFromFile (h\<lparr>readdir := r\<rparr>) p sc = loadCommandFromFile h p sc"
  by (simp add: loadCommandFromFile_def loadJsonCommand_def loadMarkdownCommand_def
      loadTypeScriptCommand_def loadYamlCommand_def
      split: option.splits CommandSourceFormat.splits sum.splits)

lemma loadCommandFromFile_None_scope:
  "loadCommandFromFile h p sc = None \<Longrightarrow> loadCommandFromFile h p sc' = None"
  by (auto simp: loadCommandFromFile_def Let_def split: option.splits)

lemma loadCommandFromFile_None_iff:
  "loadCommandFromFile h p sc = None
     \<longleftrightarrow> getSourceFormat (extname_lower h p) = None \<or> file_fails h p"
  by (auto simp: file_fails_def loadCommandFromFile_def loadJsonCommand_def
      loadMarkdownCommand_def loadTypeScriptCommand_def loadYamlCommand_def Let_def
      split: option.splits CommandSourceFormat.splits sum.splits)

lemma map_filter_append:
  "List.map_filter f (xs @ ys) = List.map_filter f xs @ List.map_filter f ys"
  by (simp add: List.map_filter_def)

lemma directory_records_without:
  assumes listing: "readdir h dir = Inr (before @ bad # after)"
      and none: "loadCommandFromFile h (path_join h dir (entry_name bad)) sc = None"
  shows "directory_records (h\<lparr>readdir := (readdir h)(dir := Inr (before @ after))\<rparr>) d
           = directory_records h d"
proof (cases "path d = dir")
  case True
  have "loadCommandFromFile h (path_join h dir (entry_name bad)) (scope d) = None"
    using none by (rule loadCommandFromFile_None_scope)
  then show ?thesis
    using True listing
    by (simp add: directory_records_eq loadCommandFromFile_readdir map_filter_append
        List.map_filter_simps cong: if_cong)
next
  case False
  then show ?thesis
    by (simp add: directory_records_eq loadCommandFromFile_readdir cong: if_cong
        split: sum.splits)
qed

text \<open>
  C8: a file yields no record exactly when its type is not recognised or it fails to
  load: reading it fails, its text does not parse, the validation rejects the parsed
  value or throws, the module loader gives no command, there is no parser for it, or
  no name can be made for it. Whenever a listed file yields no record, for whichever of
  these reasons, the load cycle returns exactly what it returns when the file is not
  listed at all: the same commands from its siblings and from the other scope, and the
  same registry.
\<close>

theorem failing_file_is_isolated:
  assumes "readdir h dir = Inr (before @ bad # after)"
      and "loadCommandFromFile h (path_join h dir (entry_name bad)) sc = None"
  shows "loadCustomCommands (h\<lparr>readdir := (readdir h)(dir := Inr (before @ after))\<rparr>) ld
         = loadCustomCommands h ld
     \<and> (loadCommandFromFile h p sc' = None
          \<longleftrightarrow> getSourceFormat (extname_lower h p) = None \<or> file_fails h p)"
proof -
  have "directory_records (h\<lparr>readdir := (readdir h)(dir := Inr (before @ after))\<rparr>)
          = directory_records h"
    using directory_records_without [OF assms] by (intro ext)
  then show ?thesis
    by (simp add: loadCustomCommands_eq loadCommandFromFile_None_iff)
qed

text \<open>
  In the example \<open>build.json\<close> does not parse, so it fails to load and yields no record;
  the cycle loads the two \<open>deploy\<close> files as it does without it.
\<close>

theorem failing_file_is_isolated_witness:
  "readdir example_host (str ''/w/.gemini/commands'') =
     Inr ([\<lparr>isFile = True, entry_name = str ''deploy.json''\<rparr>]
          @ \<lparr>isFile = True, entry_name = str ''build.json''\<rparr>
          # [\<lparr>isFile = False, entry_name = str ''drafts''\<rparr>])
   \<and> loadCommandFromFile example_host (str ''/w/.gemini/commands/build.json'') project = None
   \<and> file_fails example_host (str ''/w/.gemini/commands/build.json'')
   \<and> loadCustomCommands
        (example_host\<lparr>readdir := (readdir example_host)(str ''/w/.gemini/commands'' :=
           Inr ([\<lparr>isFile = True, entry_name = str ''deploy.json''\<rparr>]
                @ [\<lparr>isFile = False, entry_name = str ''drafts''\<rparr>]))\<rparr>) example_loader
       = loadCustomCommands example_host example_loader
   \<and> snd (loadCustomCommands example_host example_loader) = [project_deploy, personal_deploy]"
proof -
  have listing: "readdir example_host (str ''/w/.gemini/commands'') =
     Inr ([\<lparr>isFile = True, entry_name = str ''deploy.json''\<rparr>]
          @ \<lparr>isFile = True, entry_name = str ''build.json''\<rparr>
          # [\<lparr>isFile = False, entry_name = str ''drafts''\<rparr>])"
    by (simp add: example_listing)
  have none: "loadCommandFromFile example_host
      (path_join example_host (str ''/w/.gemini/commands'')
         (entry_name \<lparr>isFile = True, entry_name = str ''build.json''\<rparr>)) project = None"
    by (simp add: example_paths str_append example_loads)
  from failing_file_is_isolated [OF listing none, of example_loader
      "str ''/w/.gemini/commands/build.json''" project] listing
  show ?thesis
    by (simp add: example_loads example_formats example_custom)
qed

section \<open>A reload rebuilds the live map in place\<close>

text \<open>
  C2, as stated, fails. The loader still holds \<open>build\<close> from an earlier cycle; in the
  reload \<open>build.json\<close> does not parse. The reload does not keep the earlier registry:
  \<open>build\<close> is gone from the live map.
\<close>

theorem reload_drops_previous_registry_counterexample:
  "getCommand earlier_loader (str ''build'') = Some earlier_build
   \<and> JSON_parse example_host broken_text = Inl (SyntaxError (str ''Unexpected end of JSON input''))
   \<and> getCommand (fst (loadCustomCommands example_host earlier_loader)) (str ''build'') = None
   \<and> commands (fst (loadCustomCommands example_host earlier_loader)) \<noteq> commands earlier_loader"
proof -
  have dirs: "directories earlier_loader = setupDirectories example_host (str ''/w'')"
    by (simp add: earlier_loader_def example_directories)
  have after: "commands (fst (loadCustomCommands example_host earlier_loader))
      = foldl register [] [project_deploy, personal_deploy]"
    using loadCustomCommands_scopes [OF dirs]
    by (simp add: loadCustomCommands_eq example_records)
  have gone: "Map_get (foldl register [] [project_deploy, personal_deploy]) (JStr (str ''build'')) = None"
    by (simp add: Map_get_register example_carries str_eq_iff Map_get_empty)
  have before: "getCommand earlier_loader (str ''build'') = Some earlier_build"
    by (simp add: getCommand_def earlier_loader_def Map_get_def)
  have "commands (fst (loadCustomCommands example_host earlier_loader)) \<noteq> commands earlier_loader"
  proof
    assume "commands (fst (loadCustomCommands example_host earlier_loader)) = commands earlier_loader"
    then have "getCommand (fst (loadCustomCommands example_host earlier_loader)) (str ''build'')
      = getCommand earlier_loader (str ''build'')"
      by (simp add: getCommand_def)
    with before gone after show False by (simp add: getCommand_def)
  qed
  with before gone after show ?thesis
    by (simp add: getCommand_def example_parses)
qed

text \<open>
  C2, amended: a load cycle always runs to its end, whatever fails in a file or a
  directory; it empties the live map and rebuilds it in place, so that after the cycle
  the map is the insertion, in load order, of the records the cycle returned, and
  neither the map nor the returned list depends on the registry loaded before.
\<close>

theorem reload_rebuilds_from_scratch:
  "loadCustomCommands h (ld\<lparr>commands := previous\<rparr>) = loadCustomCommands h ld
   \<and> commands (fst (loadCustomCommands h ld)) = foldl register [] (snd (loadCustomCommands h ld))"
  by (simp add: loadCustomCommands_eq)

section \<open>Metadata\<close>

lemma json_scope_is_project:
  assumes "loadCommandFromFile h p sc = Some c"
      and "getSourceFormat (extname_lower h p) = Some json"
  shows "map_option (\<lambda>m. map_of m (str ''scope'')) (metadata c)
           = Some (Some (JStr (scope_name project)))"
  using assms
  by (auto simp: loadCommandFromFile_def loadJsonCommand_def createSimpleCommand_def
      stamp_metadata_def spread_def update_conv' str_eq_iff Let_def
      split: sum.splits if_splits)

text \<open>
  C3 does not hold of the code. The object spread puts the parser's metadata after the
  loader's three fields, so the parser's \<open>scope\<close> stays: the structured-data file of the
  personal directory is loaded with the scope \<open>project\<close>. Its source path, which the
  parser does not set, is the loader's.
\<close>

theorem personal_file_keeps_parser_scope:
  "loadCommandFromFile example_host (str ''/u/.gemini/commands/deploy.json'') personal
     = Some personal_deploy
   \<and> map_option (\<lambda>m. map_of m (str ''scope'')) (metadata personal_deploy)
     = Some (Some (JStr (scope_name project)))
   \<and> map_option (\<lambda>m. map_of m (str ''sourcePath'')) (metadata personal_deploy)
     = Some (Some (JStr (str ''/u/.gemini/commands/deploy.json'')))"
  by (simp add: example_loads personal_deploy_def str_eq_iff)

section \<open>Validation of structured-data commands\<close>

lemma check_string_mem:
  \<open>m \<in> set (check_string config field) \<longleftrightarrow>
     m = ''Command "'' @ field @ ''" must be a string''
     \<and> truthy (property config (str field)) \<and> \<not> is_string (property config (str field))\<close>
  by (simp add: check_string_def)

lemma check_name_mem:
  \<open>m \<in> set (check_name config) \<Longrightarrow>
     m = ''Missing required "name" property''
     \<or> m = ''Command name must start with a letter and contain only letters, numbers, and hyphens''\<close>
  by (simp add: check_name_def split: if_splits)

lemma check_tags_mem:
  \<open>m \<in> set (check_tags config) \<Longrightarrow>
     m = ''Command "tags" must be an array'' \<or> m = ''All tags must be strings''\<close>
  by (cases "property config (str ''tags'')") (auto simp: check_tags_def Let_def split: if_splits)

lemma check_altName_mem:
  \<open>check_altName config = Inr altName_errors \<Longrightarrow> m \<in> set altName_errors \<Longrightarrow>
     m = ''Command altName must start with a letter and contain only letters, numbers, and hyphens''\<close>
  by (auto simp: check_altName_def split: if_splits sum.splits)

lemma check_altName_throws:
  "(\<exists>e. check_altName config = Inl e) \<longleftrightarrow>
     truthy (property config (str ''altName''))
     \<and> ToString_throws (property config (str ''altName''))"
  by (auto simp: check_altName_def test_name_rule_def)

lemma validate_throws:
  "(\<exists>e. validateSimpleCommand config = Inl e) \<longleftrightarrow>
     config = JNull \<or> config = JUndefined
     \<or> truthy (property config (str ''altName''))
       \<and> ToString_throws (property config (str ''altName''))"
  using check_altName_throws [of config]
  by (cases "check_altName config") (auto simp: validateSimpleCommand_def)

lemma validate_list:
  assumes "validateSimpleCommand config = Inr errors"
  obtains altName_errors where "check_altName config = Inr altName_errors"
    and "errors = check_name config @ altName_errors
            @ check_string config ''command'' @ check_string config ''args''
            @ check_string config ''cwd'' @ check_string config ''category''
            @ check_tags config
            @ check_string config ''author'' @ check_string config ''version''"
  using assms by (auto simp: validateSimpleCommand_def split: if_splits sum.splits)

lemma field_defect_iff:
  assumes "validateSimpleCommand config = Inr errors"
      and "field \<in> set [''category'', ''author'', ''version'', ''command'', ''args'', ''cwd'']"
  shows \<open>''Command "'' @ field @ ''" must be a string'' \<in> set errors \<longleftrightarrow>
     truthy (property config (str field)) \<and> \<not> is_string (property config (str field))\<close>
proof -
  from assms(1) obtain altName_errors where a: "check_altName config = Inr altName_errors"
    and e: "errors = check_name config @ altName_errors
            @ check_string config ''command'' @ check_string config ''args''
            @ check_string config ''cwd'' @ check_string config ''category''
            @ check_tags config
            @ check_string config ''author'' @ check_string config ''version''"
    by (rule validate_list)
  from assms(2) show ?thesis
    unfolding e
    by (auto simp: check_string_mem dest: check_name_mem check_tags_mem check_altName_mem [OF a])
qed

lemma create_accepts_iff:
  assumes "validateSimpleCommand config = Inr errors"
  shows "(\<exists>c. createSimpleCommand config = Inr (Some c)) \<longleftrightarrow> errors = []"
  using assms by (simp add: createSimpleCommand_def Let_def)

text \<open>
  C7, as stated, fails. The candidate \<open>untyped\<close> has a number as description and
  \<open>false\<close> as working directory, both present and neither a string; the validator
  finds no defect and the candidate is accepted.
\<close>

theorem untyped_fields_accepted_counterexample:
  "property untyped_config (str ''description'') = JNum 42
   \<and> property untyped_config (str ''cwd'') = JBool False
   \<and> validateSimpleCommand untyped_config = Inr []
   \<and> createSimpleCommand untyped_config = Inr (Some \<lparr>
        name = JStr (str ''untyped''), altName = JUndefined, description = JNum 42,
        action = None,
        metadata = Some
          [(str ''scope'', JStr (str ''project'')), (str ''sourceFormat'', JStr (str ''json'')),
           (str ''category'', JUndefined), (str ''tags'', JUndefined), (str ''author'', JUndefined),
           (str ''version'', JUndefined), (str ''canExecuteShell'', JBool False)]\<rparr>)"
proof -
  have "valid_name (str ''untyped'')"
    by (simp add: valid_name_def str_def char_class_defs)
  then show ?thesis
    by (simp add: untyped_config_def createSimpleCommand_def validate_defs str_simps)
qed

text \<open>
  C7, amended: the validator ends without a list of defects, on a thrown \<open>TypeError\<close>,
  exactly when the candidate is \<open>null\<close> or its alias is truthy and cannot be converted
  to a string; the same error then ends the creation of the command. In every other
  case it runs all its checks and returns their defects together, and the candidate is
  accepted exactly when that list is empty. Among the defects, that of each of the
  fields category, author, version, command, args and cwd is reported exactly when the
  value of the field is truthy and not a string, whatever the other fields are: a falsy
  value that is not a string, such as \<open>0\<close>, \<open>false\<close> or \<open>null\<close>, passes.
\<close>

theorem validator_collects_defects:
  \<open>((\<exists>e. validateSimpleCommand config = Inl e) \<longleftrightarrow>
       config = JNull \<or> config = JUndefined
       \<or> truthy (property config (str ''altName''))
         \<and> ToString_throws (property config (str ''altName'')))
   \<and> (\<forall>e. validateSimpleCommand config = Inl e \<longrightarrow> createSimpleCommand config = Inl e)
   \<and> (\<forall>errors. validateSimpleCommand config = Inr errors \<longrightarrow>
         ((\<exists>c. createSimpleCommand config = Inr (Some c)) \<longleftrightarrow> errors = [])
         \<and> (\<forall>field\<in>set [''category'', ''author'', ''version'', ''command'', ''args'', ''cwd''].
               ''Command "'' @ field @ ''" must be a string'' \<in> set errors \<longleftrightarrow>
               truthy (property config (str field)) \<and> \<not> is_string (property config (str field))))\<close>
proof (intro conjI allI impI ballI)
  show "(\<exists>e. validateSimpleCommand config = Inl e) \<longleftrightarrow>
       config = JNull \<or> config = JUndefined
       \<or> truthy (property config (str ''altName''))
         \<and> ToString_throws (property config (str ''altName''))"
    by (rule validate_throws)
  show "createSimpleCommand config = Inl e" if "validateSimpleCommand config = Inl e" for e
    using that by (simp add: createSimpleCommand_def)
  show "(\<exists>c. createSimpleCommand config = Inr (Some c)) \<longleftrightarrow> errors = []"
    if "validateSimpleCommand config = Inr errors" for errors
    using that by (rule create_accepts_iff)
  show \<open>''Command "'' @ field @ ''" must be a string'' \<in> set errors \<longleftrightarrow>
     truthy (property config (str field)) \<and> \<not> is_string (property config (str field))\<close>
    if "validateSimpleCommand config = Inr errors"
      and "field \<in> set [''category'', ''author'', ''version'', ''command'', ''args'', ''cwd'']"
    for errors field
    using that by (rule field_defect_iff)
qed

text \<open>
  The candidate \<open>mistyped\<close> has three defects, and all three are reported; its \<open>args\<close>
  is \<open>0\<close>, which passes. The candidate whose alias is an object with a property
  \<open>toString\<close> ends the validation, and the creation, with a \<open>TypeError\<close>.
\<close>

theorem validator_collects_defects_witness:
  \<open>validateSimpleCommand mistyped_config =
       Inr [''Command name must start with a letter and contain only letters, numbers, and hyphens'',
            ''Command "cwd" must be a string'', ''Command "category" must be a string'']
   \<and> property mistyped_config (str ''args'') = JNum 0
   \<and> property mistyped_config (str ''cwd'') = JBool True
   \<and> property mistyped_config (str ''category'') = JNum 5
   \<and> createSimpleCommand mistyped_config = Inr None
   \<and> validateSimpleCommand unprintable_alias_config
       = Inl (TypeError (str ''Cannot convert object to primitive value''))
   \<and> createSimpleCommand unprintable_alias_config
       = Inl (TypeError (str ''Cannot convert object to primitive value''))\<close>
proof -
  have "\<not> valid_name (str ''9lives'')"
    by (simp add: valid_name_def str_def char_class_defs)
  then have v: \<open>validateSimpleCommand mistyped_config =
       Inr [''Command name must start with a letter and contain only letters, numbers, and hyphens'',
            ''Command "cwd" must be a string'', ''Command "category" must be a string'']\<close>
    by (simp add: mistyped_config_def validate_defs str_simps)
  have fields: "property mistyped_config (str ''args'') = JNum 0"
    "property mistyped_config (str ''cwd'') = JBool True"
    "property mistyped_config (str ''category'') = JNum 5"
    "property mistyped_config (str ''name'') = JStr (str ''9lives'')"
    by (simp_all add: mistyped_config_def str_simps)
  have rejected: "createSimpleCommand mistyped_config = Inr None"
    by (simp add: createSimpleCommand_def v fields)
  have thrown: "validateSimpleCommand unprintable_alias_config
       = Inl (TypeError (str ''Cannot convert object to primitive value''))"
    by (simp add: unprintable_alias_config_def validate_defs str_simps)
  from validator_collects_defects [of unprintable_alias_config, THEN conjunct2, THEN conjunct1,
      rule_format, OF thrown]
    validator_collects_defects [of mistyped_config, THEN conjunct2, THEN conjunct2,
      rule_format, OF v]
    v fields rejected thrown
  show ?thesis by simp
qed

section \<open>The action of a structured-data command\<close>

lemma GetSubstitution_plain: "\<not> has_dollar_pattern r \<Longrightarrow> GetSubstitution m b a r = r"
  by (induction m b a r rule: GetSubstitution.induct) auto

lemma replace_first_plain:
  "\<not> has_dollar_pattern r \<Longrightarrow> replace_first s p r = substitute s p r"
  by (simp add: replace_first_def substitute_def GetSubstitution_plain Let_def split: option.splits)

lemma accepted_no_defects:
  assumes "createSimpleCommand config = Inr (Some c)"
  shows "validateSimpleCommand config = Inr []"
  using assms
  by (auto simp: createSimpleCommand_def split: sum.splits if_splits)

lemma accepted_typed:
  assumes "createSimpleCommand config = Inr (Some c)"
      and "field \<in> set [''category'', ''author'', ''version'', ''command'', ''args'', ''cwd'']"
      and "truthy (property config (str field))"
  shows "is_string (property config (str field))"
  using field_defect_iff [OF accepted_no_defects [OF assms(1)] assms(2)] assms(3) by simp

lemma accepted_record:
  assumes "createSimpleCommand config = Inr (Some c)"
  shows "action c =
      (if truthy (property config (str ''command''))
       then Some (simple_action (property config (str ''command''))
              (case property config (str ''args'') of JUndefined \<Rightarrow> JStr [] | v \<Rightarrow> v)
              (property config (str ''cwd'')))
       else None)"
  using assms
  by (auto simp: createSimpleCommand_def Let_def split: sum.splits if_splits)

text \<open>
  For every accepted structured-data command whose command is a non-empty string and
  whose arguments are a string, or absent and then empty, and for every user argument
  string without a dollar pattern, the generated action requests the shell tool with
  the command line made of the command, a space and the arguments with the first
  \<open>{{args}}\<close> replaced by the user's string, trimmed of whitespace at both ends, in the
  working directory \<open>cwd\<close> if that is a non-empty string, else the project root of the
  context's configuration if there is one and it is not empty, else the working
  directory of the process.
\<close>

lemma action_without_dollar_pattern:
  assumes "createSimpleCommand config = Inr (Some c)"
      and "property config (str ''command'') = JStr cmd" and "cmd \<noteq> []"
      and "property config (str ''args'') = JStr args
           \<or> (property config (str ''args'') = JUndefined \<and> args = [])"
      and "\<not> has_dollar_pattern userArgs"
  shows "\<exists>act. action c = Some act
     \<and> act context userArgs =
         ToolActionReturn (str ''run_shell_command'') (trim (spec_composed cmd args userArgs))
           (case property config (str ''cwd'') of
              JStr dir \<Rightarrow>
                if dir \<noteq> [] then dir
                else (case services_config context of
                        None \<Rightarrow> process_cwd context
                      | Some conf \<Rightarrow>
                          if getProjectRoot conf \<noteq> [] then getProjectRoot conf
                          else process_cwd context)
            | _ \<Rightarrow>
                (case services_config context of
                   None \<Rightarrow> process_cwd context
                 | Some conf \<Rightarrow>
                     if getProjectRoot conf \<noteq> [] then getProjectRoot conf
                     else process_cwd context))"
proof -
  let ?cwd = "property config (str ''cwd'')"
  have act: "action c = Some (simple_action (JStr cmd) (JStr args) ?cwd)"
    using accepted_record [OF assms(1)] assms(2,3,4) by auto
  have typed: "truthy ?cwd \<Longrightarrow> is_string ?cwd"
    using accepted_typed [OF assms(1), of "''cwd''"] by simp
  have "simple_action (JStr cmd) (JStr args) ?cwd context userArgs =
         ToolActionReturn (str ''run_shell_command'') (trim (spec_composed cmd args userArgs))
           (case ?cwd of
              JStr dir \<Rightarrow>
                if dir \<noteq> [] then dir
                else (case services_config context of
                        None \<Rightarrow> process_cwd context
                      | Some conf \<Rightarrow>
                          if getProjectRoot conf \<noteq> [] then getProjectRoot conf
                          else process_cwd context)
            | _ \<Rightarrow>
                (case services_config context of
                   None \<Rightarrow> process_cwd context
                 | Some conf \<Rightarrow>
                     if getProjectRoot conf \<noteq> [] then getProjectRoot conf
                     else process_cwd context))"
    using typed
    by (cases ?cwd)
       (auto simp: simple_action_def spec_composed_def replace_first_plain [OF assms(5)] Let_def)
  with act show ?thesis by simp
qed

lemma echo_accepted:
  "createSimpleCommand echo_config = Inr (Some \<lparr>
        name = JStr (str ''echo''), altName = JUndefined, description = JUndefined,
        action = Some (simple_action (JStr (str ''echo hi'')) (JStr (str ''{{args}}'')) JUndefined),
        metadata = Some
          [(str ''scope'', JStr (str ''project'')), (str ''sourceFormat'', JStr (str ''json'')),
           (str ''category'', JUndefined), (str ''tags'', JUndefined), (str ''author'', JUndefined),
           (str ''version'', JUndefined), (str ''canExecuteShell'', JBool True)]\<rparr>)"
proof -
  have "valid_name (str ''echo'')"
    by (simp add: valid_name_def str_def char_class_defs)
  then show ?thesis
    by (simp add: echo_config_def createSimpleCommand_def validate_defs str_simps)
qed

text \<open>
  The command \<open>echo hi\<close> with the arguments \<open>{{args}}\<close> composes exactly
  \<open>echo hi world\<close> for the user's argument \<open>world\<close>, and \<open>echo hi $HOME\<close> for
  \<open>$HOME\<close>, run in the project root.
\<close>

lemma echo_hi_world:
  "simple_action (JStr (str ''echo hi'')) (JStr (str ''{{args}}'')) JUndefined plain_context
      (str ''world'')
     = ToolActionReturn (str ''run_shell_command'') (str ''echo hi world'') (str ''/w'')"
  "simple_action (JStr (str ''echo hi'')) (JStr (str ''{{args}}'')) JUndefined plain_context
      (str ''$HOME'')
     = ToolActionReturn (str ''run_shell_command'') (str ''echo hi $HOME'') (str ''/w'')"
proof -
  have props: "property echo_config (str ''command'') = JStr (str ''echo hi'')"
    "property echo_config (str ''args'') = JStr (str ''{{args}}'')
       \<or> (property echo_config (str ''args'') = JUndefined \<and> str ''{{args}}'' = [])"
    "property echo_config (str ''cwd'') = JUndefined"
    by (simp_all add: echo_config_def str_simps)
  have nonempty: "str ''echo hi'' \<noteq> []" by (simp add: str_Nil_iff)
  have plain: "\<not> has_dollar_pattern (str ''world'')" "\<not> has_dollar_pattern (str ''$HOME'')"
    by (simp_all add: str_def)
  have composed:
    "trim (spec_composed (str ''echo hi'') (str ''{{args}}'') (str ''world'')) = str ''echo hi world''"
    "trim (spec_composed (str ''echo hi'') (str ''{{args}}'') (str ''$HOME'')) = str ''echo hi $HOME''"
    by (simp_all add: spec_composed_def substitute_def startsWith_def trim_def is_space_def str_def)
  from action_without_dollar_pattern [OF echo_accepted props(1) nonempty props(2) plain(1),
      of plain_context]
  show "simple_action (JStr (str ''echo hi'')) (JStr (str ''{{args}}'')) JUndefined plain_context
      (str ''world'')
     = ToolActionReturn (str ''run_shell_command'') (str ''echo hi world'') (str ''/w'')"
    by (simp add: props(3) composed plain_context_def str_Nil_iff)
  from action_without_dollar_pattern [OF echo_accepted props(1) nonempty props(2) plain(2),
      of plain_context]
  show "simple_action (JStr (str ''echo hi'')) (JStr (str ''{{args}}'')) JUndefined plain_context
      (str ''$HOME'')
     = ToolActionReturn (str ''run_shell_command'') (str ''echo hi $HOME'') (str ''/w'')"
    by (simp add: props(3) composed plain_context_def str_Nil_iff)
qed

text \<open>
  C5 does not hold of the code. The action passes the user's string to
  \<open>String.prototype.replace\<close> as the replacement, where it is read as a pattern: \<open>$&\<close>
  stands for the matched text. For the accepted file with the command \<open>echo hi\<close> and
  the arguments \<open>{{args}}\<close>, the user's argument \<open>$&\<close> composes \<open>echo hi {{args}}\<close>;
  substituting the user's string for the placeholder gives \<open>echo hi $&\<close>.
\<close>

theorem user_dollar_pattern_is_expanded:
  "(\<exists>c. createSimpleCommand echo_config = Inr (Some c)
        \<and> action c = Some (simple_action (JStr (str ''echo hi'')) (JStr (str ''{{args}}'')) JUndefined))
   \<and> simple_action (JStr (str ''echo hi'')) (JStr (str ''{{args}}'')) JUndefined plain_context
        (str ''$&'')
     = ToolActionReturn (str ''run_shell_command'') (str ''echo hi {{args}}'') (str ''/w'')
   \<and> spec_composed (str ''echo hi'') (str ''{{args}}'') (str ''$&'') = str ''echo hi $&''
   \<and> str ''echo hi {{args}}'' \<noteq> str ''echo hi $&''"
proof -
  have "simple_action (JStr (str ''echo hi'')) (JStr (str ''{{args}}'')) JUndefined plain_context
        (str ''$&'')
     = ToolActionReturn (str ''run_shell_command'') (str ''echo hi {{args}}'') (str ''/w'')
   \<and> spec_composed (str ''echo hi'') (str ''{{args}}'') (str ''$&'') = str ''echo hi $&''
   \<and> str ''echo hi {{args}}'' \<noteq> str ''echo hi $&''"
    by (simp add: simple_action_def replace_first_def spec_composed_def substitute_def
        startsWith_def trim_def is_space_def plain_context_def str_def Let_def)
  then show ?thesis by (simp add: echo_accepted)
qed

section \<open>The description of a prose command\<close>

lemma trim_last: "trim s \<noteq> [] \<Longrightarrow> \<not> is_space (last (trim s))"
proof -
  assume nonempty: "trim s \<noteq> []"
  define r where "r = dropWhile is_space (rev (dropWhile is_space s))"
  have t: "trim s = rev r" by (simp add: trim_def r_def)
  with nonempty have "r \<noteq> []" by simp
  then have "\<not> is_space (hd r)" unfolding r_def by (rule hd_dropWhile)
  moreover have "last (rev r) = hd r" using \<open>r \<noteq> []\<close> by (simp add: last_rev)
  ultimately show ?thesis by (simp add: t)
qed

lemma startsWith_append: "startsWith s (p @ q) \<Longrightarrow> startsWith s p"
proof -
  assume "startsWith s (p @ q)"
  then have "take (length p + length q) s = p @ q" by (simp add: startsWith_def)
  then have "take (length p) (take (length p + length q) s) = take (length p) (p @ q)" by simp
  then show ?thesis by (simp add: startsWith_def)
qed

lemma startsWith_split: "startsWith s p \<Longrightarrow> s = p @ drop (length p) s"
  by (metis append_take_drop_id startsWith_def)

lemma heading2_text_nonempty:
  assumes "is_heading2 line"
  shows "trim (drop 3 (trim line)) \<noteq> []"
proof -
  define t where "t = trim line"
  define rest where "rest = drop 3 t"
  have len: "length (str ''## '') = 3" by (simp add: str_def)
  have t: "t = str ''## '' @ rest"
    using assms startsWith_split [of t "str ''## ''"] by (simp add: is_heading2_def t_def rest_def len)
  then have "t \<noteq> []" by (simp add: str_def)
  then have last: "\<not> is_space (last t)" unfolding t_def by (rule trim_last)
  have "rest \<noteq> []"
  proof
    assume "rest = []"
    with t have "last t = 32" by (simp add: str_def)
    with last show False by (simp add: is_space_def)
  qed
  with t have "last rest = last t" by simp
  with last \<open>rest \<noteq> []\<close> have "\<exists>c\<in>set rest. \<not> is_space c"
    using last_in_set by metis
  then have "trim rest \<noteq> []" by (simp add: trim_empty_iff)
  then show ?thesis by (simp add: rest_def t_def)
qed

lemma description_text_nonempty: "describes line \<Longrightarrow> description_text line \<noteq> []"
  by (auto simp: describes_def description_text_def heading2_text_nonempty is_plain_def)

lemma not_fence_not_shell:
  assumes "\<not> is_fence line"
  shows "\<not> startsWith (trim line) (str ''```bash'')" "\<not> startsWith (trim line) (str ''```sh'')"
    "\<not> startsWith (trim line) (str ''```shell'')" "trim line \<noteq> str ''```''"
proof -
  have "startsWith (trim line) (str ''```'' @ q) \<Longrightarrow> is_fence line" for q
    unfolding is_fence_def by (rule startsWith_append)
  from this [of "str ''bash''"] this [of "str ''sh''"] this [of "str ''shell''"] this [of "[]"] assms
  show "\<not> startsWith (trim line) (str ''```bash'')" "\<not> startsWith (trim line) (str ''```sh'')"
    "\<not> startsWith (trim line) (str ''```shell'')" "trim line \<noteq> str ''```''"
    by (auto simp: str_append startsWith_def)
qed

lemma heading2_starts_hash: "is_heading2 line \<Longrightarrow> startsWith (trim line) (str ''#'')"
  using startsWith_append [of "trim line" "str ''#''" "str ''# ''"]
  by (simp add: is_heading2_def str_append)

lemma fence_not_describing: "is_fence line \<Longrightarrow> \<not> describes line"
  by (auto simp: describes_def is_plain_def is_heading2_def is_fence_def startsWith_def str_def)

lemma shell_fence_is_fence:
  assumes "startsWith (trim line) (str ''```bash'') \<or> startsWith (trim line) (str ''```sh'')
           \<or> startsWith (trim line) (str ''```shell'') \<or> trim line = str ''```''"
  shows "is_fence line"
proof -
  have "startsWith (trim line) (str ''```'' @ q) \<Longrightarrow> is_fence line" for q
    unfolding is_fence_def by (rule startsWith_append)
  from this [of "str ''bash''"] this [of "str ''sh''"] this [of "str ''shell''"] this [of "[]"] assms
  show ?thesis
    by (auto simp: str_append startsWith_def)
qed

text \<open>
  The scan takes the description from the first line it reads that is a second-level
  heading or a plain line, in a fenced block or not.
\<close>

lemma scan_lines_description:
  "snd (scan_lines lines icb block d) =
     (if d \<noteq> [] then d
      else case List.find describes (scanned lines icb block) of
             None \<Rightarrow> []
           | Some line \<Rightarrow> description_text line)"
proof (induction lines arbitrary: icb block d)
  case Nil
  then show ?case by simp
next
  case (Cons line rest)
  let ?opens = "startsWith (trim line) (str ''```bash'') \<or> startsWith (trim line) (str ''```sh'')
           \<or> startsWith (trim line) (str ''```shell'')"
  consider (opens) "?opens"
    | (closes) "\<not> ?opens" "trim line = str ''```'' \<and> icb"
    | (other) "\<not> ?opens" "\<not> (trim line = str ''```'' \<and> icb)"
    by blast
  then show ?case
  proof cases
    case opens
    then have "is_fence line" by (intro shell_fence_is_fence) blast
    then have nd: "\<not> describes line" by (rule fence_not_describing)
    from opens have "scan_lines (line # rest) icb block d = scan_lines rest True block d"
      and "scanned (line # rest) icb block = line # scanned rest True block"
      by (simp_all add: Let_def)
    with nd Cons.IH [of True block d] show ?thesis by simp
  next
    case closes
    then have "is_fence line" by (intro shell_fence_is_fence) blast
    then have nd: "\<not> describes line" by (rule fence_not_describing)
    show ?thesis
    proof (cases "trim block \<noteq> []")
      case True
      with closes have "scan_lines (line # rest) icb block d = (trim block, d)"
        and "scanned (line # rest) icb block = [line]"
        by (simp_all add: Let_def)
      with nd show ?thesis by simp
    next
      case False
      with closes have "scan_lines (line # rest) icb block d = scan_lines rest False [] d"
        and "scanned (line # rest) icb block = line # scanned rest False []"
        by (simp_all add: Let_def)
      with nd Cons.IH [of False "[]" d] show ?thesis by simp
    qed
  next
    case other
    let ?block = "if icb then block @ line @ [10] else block"
    let ?d = "if d = [] \<and> describes line then description_text line else d"
    have step: "scan_lines (line # rest) icb block d = scan_lines rest icb ?block ?d"
      using other heading2_starts_hash [of line]
      by (auto simp: Let_def describes_def description_text_def is_heading2_def is_plain_def
          is_fence_def)
    have read: "scanned (line # rest) icb block = line # scanned rest icb ?block"
      using other by (auto simp: Let_def)
    show ?thesis
    proof (cases "d = [] \<and> describes line")
      case True
      then have "description_text line \<noteq> []" by (simp add: description_text_nonempty)
      with True Cons.IH [of icb ?block ?d] show ?thesis
        unfolding step read by simp
    next
      case False
      with Cons.IH [of icb ?block ?d] show ?thesis
        unfolding step read by auto
    qed
  qed
qed

lemma first_describing_find:
  "first_describing inside lines = None \<Longrightarrow> List.find describes lines = None"
  "first_describing inside lines = Some (i, line) \<Longrightarrow> List.find describes lines = Some line"
  by (induction lines arbitrary: inside)
     (auto simp: fence_not_describing split: if_splits)

text \<open>
  C10, as stated, fails. In the file \<open>deploy_notes\<close> a paragraph comes before the
  second-level heading; the scan takes the paragraph, \<open>Ship it.\<close>, where the
  specification takes the text of the heading, \<open>Usage\<close>.
\<close>

theorem paragraph_before_heading_counterexample:
  "markdown_description deploy_notes = str ''Ship it.''
   \<and> spec_description deploy_notes = str ''Usage''
   \<and> str ''Ship it.'' \<noteq> str ''Usage''"
  by (simp add: markdown_description_def spec_description_def deploy_notes_def is_heading2_def
      is_plain_def is_fence_def startsWith_def trim_def is_space_def str_def Let_def)

text \<open>
  C10, amended: the scan of a prose file reads its lines up to the closing fence of the
  first shell block that is not empty, or all of them. When the first line read that
  is a second-level heading or a plain line (not blank and not a heading) stands
  outside every fenced code block, the extracted description is the text of that line,
  whichever of the two kinds it is; when no line read is of either kind, the extracted
  description is empty. The record's description is the extracted one, or else the
  title, or else \<open>Command from\<close> and the file's base name.
\<close>

theorem markdown_description_first_of_either:
  "(first_describing False (scanned (split_lines content) False []) = None \<longrightarrow>
      markdown_description content = [])
   \<and> (\<forall>line. first_describing False (scanned (split_lines content) False []) = Some (False, line)
         \<longrightarrow> markdown_description content = description_text line)
   \<and> (\<forall>c. parseMarkdownCommand content filename = Some c \<longrightarrow>
         description c =
           JStr (if markdown_description content \<noteq> [] then markdown_description content
                 else if find_title (split_lines content) \<noteq> [] then find_title (split_lines content)
                 else str ''Command from '' @ filename))"
proof (intro conjI allI impI)
  show "markdown_description content = []"
    if "first_describing False (scanned (split_lines content) False []) = None"
    using first_describing_find(1) [OF that]
    by (simp add: markdown_description_def scan_lines_description)
  show "markdown_description content = description_text line"
    if "first_describing False (scanned (split_lines content) False []) = Some (False, line)"
    for line
    using first_describing_find(2) [OF that]
    by (simp add: markdown_description_def scan_lines_description)
  show "description c =
           JStr (if markdown_description content \<noteq> [] then markdown_description content
                 else if find_title (split_lines content) \<noteq> [] then find_title (split_lines content)
                 else str ''Command from '' @ filename)"
    if "parseMarkdownCommand content filename = Some c" for c
    using that
    by (auto simp: parseMarkdownCommand_def markdown_description_def Let_def
        split: prod.splits if_splits)
qed

text \<open>
  The file \<open>reset_notes\<close> has a paragraph before its shell block; its description is the
  paragraph.
\<close>

theorem markdown_description_first_of_either_witness:
  "first_describing False (scanned (split_lines reset_notes) False [])
     = Some (False, str ''Reset it.'')
   \<and> markdown_description reset_notes = str ''Reset it.''
   \<and> map_option description (parseMarkdownCommand reset_notes (str ''notes''))
       = Some (JStr (str ''Reset it.''))"
proof -
  have lines: "split_lines reset_notes =
      [str ''# Reset'', str ''Reset it.'', str ''```bash'', str ''npm run reset'', str ''```'']"
    by (simp add: reset_notes_def str_def)
  have read: "scanned (split_lines reset_notes) False [] =
      [str ''# Reset'', str ''Reset it.'', str ''```bash'', str ''npm run reset'', str ''```'']"
    by (simp add: lines startsWith_def trim_def is_space_def str_def Let_def)
  have first: "first_describing False (scanned (split_lines reset_notes) False [])
      = Some (False, str ''Reset it.'')"
    by (simp add: read describes_def is_heading2_def is_plain_def is_fence_def startsWith_def
        trim_def is_space_def str_def)
  have same: "description_text (str ''Reset it.'') = str ''Reset it.''"
    by (simp add: description_text_def is_heading2_def startsWith_def trim_def is_space_def str_def)
  have title: "find_title (split_lines reset_notes) = str ''Reset''"
    by (simp add: lines startsWith_def trim_def is_space_def str_def Let_def)
  have named: "sanitizeCommandName (str ''Reset'') = str ''reset''"
    by (simp add: sanitize_defs str_def)
  have "\<exists>c. parseMarkdownCommand reset_notes (str ''notes'') = Some c"
    by (simp add: parseMarkdownCommand_def title named Let_def str_Nil_iff split: prod.splits)
  then obtain c where c: "parseMarkdownCommand reset_notes (str ''notes'') = Some c" ..
  from markdown_description_first_of_either [of reset_notes "str ''notes''"] first same c
  show ?thesis by (simp add: str_Nil_iff)
qed

section \<open>Debounced reload\<close>

lemma loadCustomCommands_keeps_timer:
  "reloadTimer (fst (loadCustomCommands h ld)) = reloadTimer ld"
  by (simp add: loadCustomCommands_eq)

lemma scheduleReload_arms:
  assumes "own_timer_only w"
  shows "timers (scheduleReload now w) = [(next_handle w, now + 500)]"
    and "reloadTimer (loader (scheduleReload now w)) = Some (next_handle w)"
    and "reloads (scheduleReload now w) = reloads w"
  using assms
  by (auto simp: scheduleReload_def own_timer_only_def clearTimeout_def Let_def
      split: list.splits option.splits if_splits)

lemma own_timer_only_scheduleReload:
  "own_timer_only w \<Longrightarrow> own_timer_only (scheduleReload now w)"
  by (simp add: own_timer_only_def [of "scheduleReload now w"] scheduleReload_arms)

lemma run_timers_early:
  assumes "timers w = [(handle, due)]" and "now < due"
  shows "run_timers h now w = w"
  using assms by (simp add: run_timers_def)

lemma run_timers_due:
  assumes "timers w = [(handle, due)]" and "due \<le> now"
  shows "timers (run_timers h now w) = []"
    and "reloads (run_timers h now w) = reloads w @ [due]"
    and "reloadTimer (loader (run_timers h now w)) = reloadTimer (loader w)"
  using assms by (simp_all add: run_timers_def fire_def loadCustomCommands_keeps_timer)

lemma run_timers_idle:
  assumes "timers w = []"
  shows "run_timers h now w = w"
  using assms by (simp add: run_timers_def)

lemma run_events_rapid:
  assumes "filename \<noteq> []" and "rapid (t # ts)"
      and "timers w = [(handle, t + 500)]" and "reloadTimer (loader w) = Some handle"
  shows "\<exists>handle'. timers (run_events h (changes_at filename ts) w) = [(handle', last (t # ts) + 500)]
     \<and> reloadTimer (loader (run_events h (changes_at filename ts) w)) = Some handle'
     \<and> reloads (run_events h (changes_at filename ts) w) = reloads w"
  using assms(2-)
proof (induction ts arbitrary: t w handle)
  case Nil
  then show ?case by (simp add: changes_at_def)
next
  case (Cons u ts)
  from Cons.prems(1) have order: "t \<le> u" "u < t + 500" and rest: "rapid (u # ts)" by simp_all
  have idle: "run_timers h u w = w"
    using Cons.prems(2) order(2) by (rule run_timers_early)
  have own: "own_timer_only w"
    using Cons.prems(2,3) by (simp add: own_timer_only_def)
  define w' where "w' = watch_callback change (Some filename) u (run_timers h u w)"
  have w': "w' = scheduleReload u w"
    using assms(1) by (simp add: w'_def watch_callback_def idle)
  have armed: "timers w' = [(next_handle w, u + 500)]"
    "reloadTimer (loader w') = Some (next_handle w)" "reloads w' = reloads w"
    unfolding w' using own by (rule scheduleReload_arms)+
  from Cons.IH [OF rest armed(1,2)] armed(3)
  show ?case by (simp add: changes_at_def w'_def)
qed

lemma run_events_first:
  assumes "filename \<noteq> []" and "rapid (t # ts)" and "timers w = []"
  shows "\<exists>handle'. timers (run_events h (changes_at filename (t # ts)) w) = [(handle', last (t # ts) + 500)]
     \<and> reloads (run_events h (changes_at filename (t # ts)) w) = reloads w"
proof -
  have idle: "run_timers h t w = w" using assms(3) by (rule run_timers_idle)
  have own: "own_timer_only w" using assms(3) by (simp add: own_timer_only_def)
  define w' where "w' = watch_callback change (Some filename) t (run_timers h t w)"
  have w': "w' = scheduleReload t w"
    using assms(1) by (simp add: w'_def watch_callback_def idle)
  have armed: "timers w' = [(next_handle w, t + 500)]"
    "reloadTimer (loader w') = Some (next_handle w)" "reloads w' = reloads w"
    unfolding w' using own by (rule scheduleReload_arms)+
  from run_events_rapid [OF assms(1,2) armed(1,2), of h] armed(3)
  show ?thesis by (auto simp: changes_at_def w'_def)
qed

lemma watch_callback_ignores:
  assumes "eventType = rename \<or> named = None \<or> named = Some []"
  shows "watch_callback eventType named now w = w"
  using assms by (auto simp: watch_callback_def)

lemma run_events_ignored:
  assumes "\<forall>(t, eventType, named)\<in>set events. eventType = rename \<or> named = None \<or> named = Some []"
      and "timers w = []"
  shows "run_events h events w = w"
  using assms
proof (induction events)
  case Nil
  then show ?case by simp
next
  case (Cons e events)
  obtain t eventType named where e: "e = (t, eventType, named)" by (cases e)
  with Cons.prems(1) have "eventType = rename \<or> named = None \<or> named = Some []" by simp
  then have "watch_callback eventType named t w = w" by (rule watch_callback_ignores)
  with Cons show ?case by (simp add: e run_timers_idle)
qed

text \<open>
  C9, as stated, fails. A change notification that carries no file name does not touch
  the timer: nothing is scheduled and no reload ever runs.
\<close>

theorem unnamed_change_counterexample:
  "timers (watch_callback change None 0 fresh_world) = []
   \<and> reloads (run_watcher example_host [(0, change, None)] 1000 fresh_world) = []"
  by (simp add: run_watcher_def watch_callback_def run_timers_def fresh_world_def)

text \<open>
  C9, amended: every notification of type \<open>change\<close> that carries a non-empty file name
  cancels the pending timeout of the watcher and starts one of 500 milliseconds, so
  that afterwards that timeout is the only one pending; and a burst of such
  notifications, each less than 500 milliseconds after the one before, starting with
  no timeout pending, triggers exactly one reload, 500 milliseconds after the last
  notification. A notification of another type, or without a file name, leaves the
  timer and everything else as they are; a run of such notifications alone, with no
  timeout pending at its start, triggers no reload.
\<close>

theorem debounce_single_reload:
  "(filename \<noteq> [] \<and> own_timer_only w \<longrightarrow>
      timers (watch_callback change (Some filename) now w) = [(next_handle w, now + 500)]
      \<and> reloadTimer (loader (watch_callback change (Some filename) now w)) = Some (next_handle w))
   \<and> (filename \<noteq> [] \<and> ts \<noteq> [] \<and> rapid ts \<and> timers w = [] \<and> last ts + 500 \<le> horizon \<longrightarrow>
      reloads (run_watcher h (changes_at filename ts) horizon w) = reloads w @ [last ts + 500]
      \<and> timers (run_watcher h (changes_at filename ts) horizon w) = [])
   \<and> (eventType = rename \<or> named = None \<or> named = Some [] \<longrightarrow>
      watch_callback eventType named now w = w)
   \<and> ((\<forall>(t, eventType, named)\<in>set events. eventType = rename \<or> named = None \<or> named = Some [])
       \<and> timers w = [] \<longrightarrow>
      run_watcher h events horizon w = w)"
proof (intro conjI impI)
  assume "filename \<noteq> [] \<and> own_timer_only w"
  then show "timers (watch_callback change (Some filename) now w) = [(next_handle w, now + 500)]"
    and "reloadTimer (loader (watch_callback change (Some filename) now w)) = Some (next_handle w)"
    by (simp_all add: watch_callback_def scheduleReload_arms)
next
  assume burst: "filename \<noteq> [] \<and> ts \<noteq> [] \<and> rapid ts \<and> timers w = [] \<and> last ts + 500 \<le> horizon"
  then have named: "filename \<noteq> []" by simp
  from burst obtain t rest where ts: "ts = t # rest" by (cases ts) auto
  from run_events_first [OF named, of t rest w h] burst
  obtain handle' where armed:
    "timers (run_events h (changes_at filename ts) w) = [(handle', last ts + 500)]"
    "reloads (run_events h (changes_at filename ts) w) = reloads w"
    unfolding ts by auto
  from burst have due: "last ts + 500 \<le> horizon" by simp
  show "reloads (run_watcher h (changes_at filename ts) horizon w) = reloads w @ [last ts + 500]"
    unfolding run_watcher_def using run_timers_due(2) [OF armed(1) due] armed(2) by simp
  show "timers (run_watcher h (changes_at filename ts) horizon w) = []"
    unfolding run_watcher_def using run_timers_due(1) [OF armed(1) due] by simp
next
  assume "eventType = rename \<or> named = None \<or> named = Some []"
  then show "watch_callback eventType named now w = w" by (rule watch_callback_ignores)
next
  assume quiet: "(\<forall>(t, eventType, named)\<in>set events. eventType = rename \<or> named = None \<or> named = Some [])
       \<and> timers w = []"
  then have "run_events h events w = w" by (intro run_events_ignored) simp_all
  with quiet show "run_watcher h events horizon w = w"
    by (simp add: run_watcher_def run_timers_idle)
qed

text \<open>
  Three changes of \<open>deploy.json\<close>, at 0, 100 and 450 milliseconds: one reload, at 950.
  A rename of \<open>deploy.json\<close> and a change without a file name leave the watcher as it
  was.
\<close>

theorem debounce_single_reload_witness:
  "reloads (run_watcher example_host (changes_at (str ''deploy.json'') [0, 100, 450]) 1000 fresh_world)
     = [950]
   \<and> timers (watch_callback change (Some (str ''deploy.json'')) 450 fresh_world) = [(0, 950)]
   \<and> watch_callback rename (Some (str ''deploy.json'')) 450 fresh_world = fresh_world
   \<and> run_watcher example_host [(0, rename, Some (str ''deploy.json'')), (100, change, None)] 1000
        fresh_world = fresh_world"
proof -
  have named: "str ''deploy.json'' \<noteq> []" by (simp add: str_Nil_iff)
  have own: "own_timer_only fresh_world"
    by (simp add: own_timer_only_def fresh_world_def)
  have burst: "[0, 100, 450] \<noteq> [] \<and> rapid [0, 100, 450::nat] \<and> timers fresh_world = []
      \<and> last [0, 100, 450::nat] + 500 \<le> 1000"
    by (simp add: fresh_world_def)
  have quiet: "\<forall>(t, eventType, named)\<in>set [(0::nat, rename, Some (str ''deploy.json'')), (100, change, None)].
      eventType = rename \<or> named = None \<or> named = Some []"
    by simp
  from debounce_single_reload [of "str ''deploy.json''" fresh_world 450 "[0, 100, 450]" 1000
      example_host rename "Some (str ''deploy.json'')"
      "[(0, rename, Some (str ''deploy.json'')), (100, change, None)]"]
    named own burst quiet
  show ?thesis by (simp add: fresh_world_def)
qed

end
